theory Spec2Isabelle
  imports Main "HOL-Library.Word"
begin

section \<open>The device database of libtrellis (Database.cpp)\<close>

text \<open>
  A shallow embedding of \<^verbatim>\<open>libtrellis/src/Database.cpp\<close>. The file keeps its state in
  statics (\<^verbatim>\<open>db_root\<close>, \<^verbatim>\<open>devices_info\<close>, and the two caches \<^verbatim>\<open>tilegrid_cache\<close> and
  \<^verbatim>\<open>bitdb_store\<close>); here they are explicit arguments and results. C++ exceptions,
  failed assertions and undefined behaviour are values of the type \<open>error\<close>, and every
  function that can raise returns \<open>error + 'a\<close>.
\<close>

subsection \<open>Errors\<close>

text \<open>
  One constructor per way the source can leave a function without a result:
  the exceptions of Boost.PropertyTree (\<^verbatim>\<open>json_parser_error\<close> from \<^verbatim>\<open>read_json\<close>,
  \<^verbatim>\<open>ptree_bad_path\<close> from \<^verbatim>\<open>get_child\<close>, \<^verbatim>\<open>ptree_bad_data\<close> from a failed conversion),
  the exceptions of \<^verbatim>\<open>std::stoi\<close> and \<^verbatim>\<open>substr\<close>, the \<^verbatim>\<open>runtime_error\<close> thrown by the
  two finders, a failed \<^verbatim>\<open>assert\<close> (assertions are modelled as compiled in), and the
  places where the source dereferences an end iterator or indexes a vector out of range.
\<close>

datatype error =
    JsonParserError
  | PtreeBadPath
  | PtreeBadData
  | InvalidArgument
  | OutOfRange
  | RuntimeError
  | AssertionFailed
  | UndefinedBehaviour

definition then_do :: "error + 'a \<Rightarrow> ('a \<Rightarrow> error + 'b) \<Rightarrow> error + 'b" where
  "then_do m f = (case m of Inl e \<Rightarrow> Inl e | Inr x \<Rightarrow> f x)"

text \<open>A loop that builds a vector with \<^verbatim>\<open>push_back\<close>, one element per child, and leaves at
  the first exception.\<close>

fun for_each :: "('a \<Rightarrow> error + 'b) \<Rightarrow> 'a list \<Rightarrow> error + 'b list" where
  "for_each f [] = Inr []"
| "for_each f (x # xs) =
     then_do (f x) (\<lambda>y. then_do (for_each f xs) (\<lambda>ys. Inr (y # ys)))"

subsection \<open>Property trees\<close>

text \<open>
  A \<^verbatim>\<open>boost::property_tree::ptree\<close>: a data string and an ordered list of keyed children
  (keys may repeat; a JSON array is a list of children with empty keys).
\<close>

datatype ptree = Node (data: string) (children: "(string \<times> ptree) list")

text \<open>
  \<^verbatim>\<open>get_child(path)\<close> reads its argument as a path with separator \<^verbatim>\<open>'.'\<close>
  (\<^verbatim>\<open>string_path::reduce\<close>): the fragments between the dots, a trailing empty fragment
  dropped; the empty path is the node itself. Each fragment selects the first child
  with that key.
\<close>

fun split_dots :: "string \<Rightarrow> string list" where
  "split_dots [] = [[]]"
| "split_dots (c # cs) =
     (if c = CHR ''.'' then [] # split_dots cs
      else (case split_dots cs of [] \<Rightarrow> [[c]] | f # fs \<Rightarrow> (c # f) # fs))"

definition path_fragments :: "string \<Rightarrow> string list" where
  "path_fragments p = (let fs = split_dots p in if last fs = [] then butlast fs else fs)"

fun walk_path :: "ptree \<Rightarrow> string list \<Rightarrow> ptree option" where
  "walk_path t [] = Some t"
| "walk_path t (f # fs) =
     (case map_of (children t) f of None \<Rightarrow> None | Some c \<Rightarrow> walk_path c fs)"

definition get_child_optional :: "ptree \<Rightarrow> string \<Rightarrow> ptree option" where
  "get_child_optional t p = walk_path t (path_fragments p)"

definition get_child :: "ptree \<Rightarrow> string \<Rightarrow> error + ptree" where
  "get_child t p = (case get_child_optional t p of None \<Rightarrow> Inl PtreeBadPath | Some c \<Rightarrow> Inr c)"

subsection \<open>Characters and numbers\<close>

definition isspace :: "char \<Rightarrow> bool" where
  "isspace c = (let n = (of_char c :: nat) in n = 32 \<or> (9 \<le> n \<and> n \<le> 13))"

definition isdigit :: "char \<Rightarrow> bool" where
  "isdigit c = (let n = (of_char c :: nat) in 48 \<le> n \<and> n \<le> 57)"

text \<open>The value of a character as a digit in the given base, if it is one.\<close>

definition digit_val :: "nat \<Rightarrow> char \<Rightarrow> nat option" where
  "digit_val base c =
     (let n = (of_char c :: nat);
          v = (if 48 \<le> n \<and> n \<le> 57 then Some (n - 48)
               else if 97 \<le> n \<and> n \<le> 122 then Some (n - 87)
               else if 65 \<le> n \<and> n \<le> 90 then Some (n - 55)
               else None)
      in case v of None \<Rightarrow> None | Some d \<Rightarrow> if d < base then Some d else None)"

definition is_digit_in :: "nat \<Rightarrow> char \<Rightarrow> bool" where
  "is_digit_in base c = (digit_val base c \<noteq> None)"

definition digits_value :: "nat \<Rightarrow> string \<Rightarrow> nat" where
  "digits_value base ds = foldl (\<lambda>a c. a * base + the (digit_val base c)) 0 ds"

text \<open>An optional sign in front of a number: whether it is a minus, and the rest.\<close>

definition strip_sign :: "string \<Rightarrow> bool \<times> string" where
  "strip_sign s =
     (case s of
        [] \<Rightarrow> (False, [])
      | c # cs \<Rightarrow> if c = CHR ''-'' then (True, cs)
                 else if c = CHR ''+'' then (False, cs)
                 else (False, s))"

text \<open>
  \<^verbatim>\<open>strtoul(str, nullptr, 0)\<close> of the C library, \<^verbatim>\<open>unsigned long\<close> of 64 bits: leading
  white space, an optional sign, the base from the prefix (\<^verbatim>\<open>0x\<close> followed by a
  hexadecimal digit: 16; a leading \<^verbatim>\<open>0\<close>: 8; otherwise 10), then the longest run of
  digits of that base. No digits at all gives 0, a value that does not fit gives
  \<^verbatim>\<open>ULONG_MAX\<close>, and a minus sign negates in \<^verbatim>\<open>unsigned long\<close>. Nothing is ever
  reported: \<^verbatim>\<open>errno\<close> and the end pointer are ignored by the caller.
\<close>

definition ULONG_MAX :: nat where
  "ULONG_MAX = 2 ^ 64 - 1"

definition strtoul_prefix :: "string \<Rightarrow> nat \<times> string" where
  "strtoul_prefix s =
     (case s of
        z # x # h # rest \<Rightarrow>
          if z = CHR ''0'' \<and> (x = CHR ''x'' \<or> x = CHR ''X'') \<and> is_digit_in 16 h
          then (16, h # rest)
          else if z = CHR ''0'' then (8, s) else (10, s)
      | z # rest \<Rightarrow> if z = CHR ''0'' then (8, s) else (10, s)
      | [] \<Rightarrow> (10, s))"

definition strtoul :: "string \<Rightarrow> nat" where
  "strtoul str =
     (let (neg, s) = strip_sign (dropWhile isspace str);
          (base, ds) = strtoul_prefix s;
          v = digits_value base (takeWhile (is_digit_in base) ds)
      in if ULONG_MAX < v then ULONG_MAX
         else if neg then (2 ^ 64 - v) mod 2 ^ 64
         else v)"

definition parse_uint32 :: "string \<Rightarrow> 32 word" where
  "parse_uint32 str = word_of_nat (strtoul str)"

text \<open>
  \<^verbatim>\<open>std::stoi\<close>: \<^verbatim>\<open>strtol\<close> in base 10; \<^verbatim>\<open>invalid_argument\<close> when there is no digit,
  \<^verbatim>\<open>out_of_range\<close> when the value is not an \<^verbatim>\<open>int\<close>. What follows the digits is ignored.
\<close>

definition stoi :: "string \<Rightarrow> error + int" where
  "stoi str =
     (let (neg, s) = strip_sign (dropWhile isspace str);
          ds = takeWhile isdigit s;
          v = (if neg then - int (digits_value 10 ds) else int (digits_value 10 ds))
      in if ds = [] then Inl InvalidArgument
         else if v < - (2 ^ 31) \<or> 2 ^ 31 \<le> v then Inl OutOfRange
         else Inr v)"

text \<open>
  The conversion behind \<^verbatim>\<open>get<int>\<close> and \<^verbatim>\<open>get_value<int>\<close> (the stream translator
  of Boost.PropertyTree): \<^verbatim>\<open>iss >> e\<close>, then white space, then the end of the data;
  the whole string must be one decimal \<^verbatim>\<open>int\<close>.
\<close>

definition translate_int :: "string \<Rightarrow> int option" where
  "translate_int str =
     (let (neg, s) = strip_sign (dropWhile isspace str);
          ds = takeWhile isdigit s;
          v = (if neg then - int (digits_value 10 ds) else int (digits_value 10 ds))
      in if ds = [] then None
         else if v < - (2 ^ 31) \<or> 2 ^ 31 \<le> v then None
         else if dropWhile isspace (dropWhile isdigit s) \<noteq> [] then None
         else Some v)"

definition get_value_int :: "ptree \<Rightarrow> error + int" where
  "get_value_int t = (case translate_int (data t) of None \<Rightarrow> Inl PtreeBadData | Some v \<Rightarrow> Inr v)"

definition get_int :: "ptree \<Rightarrow> string \<Rightarrow> error + int" where
  "get_int t p = then_do (get_child t p) get_value_int"

definition get_string :: "ptree \<Rightarrow> string \<Rightarrow> error + string" where
  "get_string t p = then_do (get_child t p) (\<lambda>c. Inr (data c))"

text \<open>\<^verbatim>\<open>std::to_string\<close> of an \<^verbatim>\<open>int\<close>: the decimal digits, most significant first,
  after a minus sign for a negative number.\<close>

definition digit_char :: "nat \<Rightarrow> char" where
  "digit_char d = char_of (of_char (CHR ''0'') + d)"

fun decimal :: "nat \<Rightarrow> string" where
  "decimal n = (if 10 \<le> n then decimal (n div 10) @ [digit_char (n mod 10)] else [digit_char n])"

declare decimal.simps [simp del]

definition to_string :: "int \<Rightarrow> string" where
  "to_string i = (if 0 \<le> i then decimal (nat i) else CHR ''-'' # decimal (nat (- i)))"

subsection \<open>The device catalog\<close>

record DeviceLocator =
  family :: string
  device :: string

record ChipInfo =
  ci_family :: string
  ci_name :: string
  ci_num_frames :: int
  ci_bits_per_frame :: int
  ci_pad_bits_before_frame :: int
  ci_pad_bits_after_frame :: int
  ci_idcode :: "32 word"
  ci_max_row :: int
  ci_max_col :: int
  ci_col_bias :: int

text \<open>
  \<^verbatim>\<open>find_device_generic\<close>: the two nested loops over the families and their devices,
  in the order of \<^verbatim>\<open>devices_info\<close>; the predicate \<open>f\<close> may itself raise.
\<close>

fun scan_devices ::
  "(string \<Rightarrow> ptree \<Rightarrow> error + bool) \<Rightarrow> string \<Rightarrow> (string \<times> ptree) list
     \<Rightarrow> error + DeviceLocator option" where
  "scan_devices f fam [] = Inr None"
| "scan_devices f fam (dev # devs) =
     then_do (f (fst dev) (snd dev)) (\<lambda>res.
       if res then Inr (Some \<lparr>family = fam, device = fst dev\<rparr>)
       else scan_devices f fam devs)"

fun scan_families ::
  "(string \<Rightarrow> ptree \<Rightarrow> error + bool) \<Rightarrow> (string \<times> ptree) list
     \<Rightarrow> error + DeviceLocator option" where
  "scan_families f [] = Inr None"
| "scan_families f (fam # fams) =
     then_do (get_child (snd fam) ''devices'') (\<lambda>devs.
     then_do (scan_devices f (fst fam) (children devs)) (\<lambda>found.
       case found of Some loc \<Rightarrow> Inr (Some loc) | None \<Rightarrow> scan_families f fams))"

definition find_device_generic ::
  "ptree \<Rightarrow> (string \<Rightarrow> ptree \<Rightarrow> error + bool) \<Rightarrow> error + DeviceLocator option" where
  "find_device_generic devices_info f =
     then_do (get_child devices_info ''families'') (\<lambda>fams. scan_families f (children fams))"

definition find_device_by_name :: "ptree \<Rightarrow> string \<Rightarrow> error + DeviceLocator" where
  "find_device_by_name devices_info name =
     then_do (find_device_generic devices_info (\<lambda>n p. Inr (n = name))) (\<lambda>found.
       case found of None \<Rightarrow> Inl RuntimeError | Some loc \<Rightarrow> Inr loc)"


definition get_chip_info :: "ptree \<Rightarrow> DeviceLocator \<Rightarrow> error + ChipInfo" where
  "get_chip_info devices_info part =
     then_do (get_child devices_info ''families'') (\<lambda>fams.
     then_do (get_child fams (family part)) (\<lambda>fam.
     then_do (get_child fam ''devices'') (\<lambda>devs.
     then_do (get_child devs (device part)) (\<lambda>dev.
     then_do (get_int dev ''frames'') (\<lambda>frames.
     then_do (get_int dev ''bits_per_frame'') (\<lambda>bpf.
     then_do (get_int dev ''pad_bits_after_frame'') (\<lambda>pad_after.
     then_do (get_int dev ''pad_bits_before_frame'') (\<lambda>pad_before.
     then_do (get_string dev ''idcode'') (\<lambda>idc.
     then_do (get_int dev ''max_row'') (\<lambda>mrow.
     then_do (get_int dev ''max_col'') (\<lambda>mcol.
     then_do (get_int dev ''col_bias'') (\<lambda>bias.
       Inr \<lparr>ci_family = family part, ci_name = device part,
            ci_num_frames = frames, ci_bits_per_frame = bpf,
            ci_pad_bits_before_frame = pad_before, ci_pad_bits_after_frame = pad_after,
            ci_idcode = parse_uint32 idc,
            ci_max_row = mrow, ci_max_col = mcol, ci_col_bias = bias\<rparr>))))))))))))"

subsection \<open>Files\<close>

text \<open>
  \<^verbatim>\<open>pt::read_json(path, tree)\<close> is Boost's: the file system is a partial map from paths to
  the tree that the JSON parser builds from the file, undefined where the file is
  missing or is not JSON (\<^verbatim>\<open>json_parser_error\<close> in both cases).
\<close>

type_synonym filesystem = "string \<Rightarrow> ptree option"

definition read_json :: "filesystem \<Rightarrow> string \<Rightarrow> error + ptree" where
  "read_json fs path = (case fs path of None \<Rightarrow> Inl JsonParserError | Some t \<Rightarrow> Inr t)"

text \<open>\<^verbatim>\<open>load_database\<close> sets \<^verbatim>\<open>db_root\<close> and then reads the catalog: the new root, and
  the catalog or the error of \<^verbatim>\<open>read_json\<close>.\<close>

definition load_database :: "filesystem \<Rightarrow> string \<Rightarrow> string \<times> (error + ptree)" where
  "load_database fs root = (root, read_json fs (root @ ''/'' @ ''devices.json''))"

definition globals_path :: "string \<Rightarrow> DeviceLocator \<Rightarrow> string" where
  "globals_path db_root part = db_root @ ''/'' @ family part @ ''/'' @ device part @ ''/globals.json''"

definition tilegrid_path :: "string \<Rightarrow> DeviceLocator \<Rightarrow> string" where
  "tilegrid_path db_root part = db_root @ ''/'' @ family part @ ''/'' @ device part @ ''/tilegrid.json''"

subsection \<open>Globals of the ECP5 family\<close>

record GlobalRegion =
  rg_name :: string
  rg_x0 :: int
  rg_x1 :: int
  rg_y0 :: int
  rg_y1 :: int

record TapSegment =
  ts_tap_col :: int
  ts_lx0 :: int
  ts_lx1 :: int
  ts_rx0 :: int
  ts_rx1 :: int

record SpineSegment =
  ss_quadrant :: string
  ss_tap_col :: int
  ss_spine_row :: int
  ss_spine_col :: int

record Ecp5GlobalsInfo =
  quadrants :: "GlobalRegion list"
  tapsegs :: "TapSegment list"
  spinesegs :: "SpineSegment list"

text \<open>The bodies of the three loops of \<^verbatim>\<open>get_global_info_ecp5\<close>, one child each.\<close>

definition parse_quadrant :: "string \<times> ptree \<Rightarrow> error + GlobalRegion" where
  "parse_quadrant quad =
     then_do (get_int (snd quad) ''x0'') (\<lambda>x0.
     then_do (get_int (snd quad) ''x1'') (\<lambda>x1.
     then_do (get_int (snd quad) ''y0'') (\<lambda>y0.
     then_do (get_int (snd quad) ''y1'') (\<lambda>y1.
       Inr \<lparr>rg_name = fst quad, rg_x0 = x0, rg_x1 = x1, rg_y0 = y0, rg_y1 = y1\<rparr>))))"

text \<open>\<^verbatim>\<open>tap.first[0]\<close> of an empty key is the terminating zero, so the assertion fails.\<close>

definition parse_tap :: "string \<times> ptree \<Rightarrow> error + TapSegment" where
  "parse_tap tap =
     (case fst tap of
        [] \<Rightarrow> Inl AssertionFailed
      | c # rest \<Rightarrow>
          if c \<noteq> CHR ''C'' then Inl AssertionFailed
          else
            then_do (stoi rest) (\<lambda>col.
            then_do (get_int (snd tap) ''lx0'') (\<lambda>lx0.
            then_do (get_int (snd tap) ''lx1'') (\<lambda>lx1.
            then_do (get_int (snd tap) ''rx0'') (\<lambda>rx0.
            then_do (get_int (snd tap) ''rx1'') (\<lambda>rx1.
              Inr \<lparr>ts_tap_col = col, ts_lx0 = lx0, ts_lx1 = lx1, ts_rx0 = rx0, ts_rx1 = rx1\<rparr>))))))"

text \<open>\<^verbatim>\<open>substr(0, 2)\<close> never raises; \<^verbatim>\<open>substr(2)\<close> raises \<^verbatim>\<open>out_of_range\<close> on a key
  shorter than two characters.\<close>

definition parse_spine :: "string \<times> ptree \<Rightarrow> error + SpineSegment" where
  "parse_spine spine =
     (if length (fst spine) < 2 then Inl OutOfRange
      else
        then_do (stoi (drop 2 (fst spine))) (\<lambda>col.
        then_do (get_int (snd spine) ''y'') (\<lambda>y.
        then_do (get_int (snd spine) ''x'') (\<lambda>x.
          Inr \<lparr>ss_quadrant = take 2 (fst spine), ss_tap_col = col,
               ss_spine_row = y, ss_spine_col = x\<rparr>))))"

definition get_global_info_ecp5 ::
  "filesystem \<Rightarrow> string \<Rightarrow> DeviceLocator \<Rightarrow> error + Ecp5GlobalsInfo" where
  "get_global_info_ecp5 fs db_root part =
     then_do (read_json fs (globals_path db_root part)) (\<lambda>glb_parsed.
     then_do (get_child glb_parsed ''quadrants'') (\<lambda>qs.
     then_do (for_each parse_quadrant (children qs)) (\<lambda>quads.
     then_do (get_child glb_parsed ''taps'') (\<lambda>ts.
     then_do (for_each parse_tap (children ts)) (\<lambda>taps.
     then_do (get_child glb_parsed ''spines'') (\<lambda>ss.
     then_do (for_each parse_spine (children ss)) (\<lambda>spines.
       Inr \<lparr>quadrants = quads, tapsegs = taps, spinesegs = spines\<rparr>)))))))"

subsection \<open>Globals of the MachXO2 family\<close>

record LeftRightConn =
  lrc_name :: string
  lrc_row :: int
  lrc_row_span :: "int \<times> int"

record MissingDccs =
  md_row :: int
  md_missing :: "int list"

record MachXO2GlobalsInfo =
  lr_conns :: "LeftRightConn list"
  ud_conns :: "int list list"
  branch_spans :: "(int \<times> int) list list"
  missing_dccs :: "MissingDccs list"

text \<open>
  The idiom \<^verbatim>\<open>auto it = t.begin(); a = it->second.get_value<int>(); it++;
  b = it->second.get_value<int>();\<close>: the first two children as a pair. With fewer
  than two children the source dereferences the end iterator.
\<close>

definition read_pair :: "(string \<times> ptree) list \<Rightarrow> error + int \<times> int" where
  "read_pair kids =
     (case kids of
        [] \<Rightarrow> Inl UndefinedBehaviour
      | a # others \<Rightarrow>
          then_do (get_value_int (snd a)) (\<lambda>first.
            case others of
              [] \<Rightarrow> Inl UndefinedBehaviour
            | b # _ \<Rightarrow> then_do (get_value_int (snd b)) (\<lambda>second. Inr (first, second))))"

definition parse_lr_conn :: "string \<times> ptree \<Rightarrow> error + LeftRightConn" where
  "parse_lr_conn lr =
     then_do (get_int (snd lr) ''row'') (\<lambda>row.
     then_do (get_child (snd lr) ''row-span'') (\<lambda>rs.
     then_do (read_pair (children rs)) (\<lambda>span.
       Inr \<lparr>lrc_name = fst lr, lrc_row = row, lrc_row_span = span\<rparr>)))"

text \<open>The inner loop shared by \<^verbatim>\<open>ud-conns\<close> and \<^verbatim>\<open>missing-dccs\<close>: the elements of a
  JSON array, each read with \<^verbatim>\<open>get<int>("")\<close>.\<close>

definition int_array :: "ptree \<Rightarrow> error + int list" where
  "int_array t =
     then_do (get_child t []) (\<lambda>arr. for_each (\<lambda>elem. get_int (snd elem) []) (children arr))"

text \<open>The loop over \<^verbatim>\<open>ud-conns\<close>; \<open>col_no\<close> is the counter the assertion compares with
  the key.\<close>

fun parse_ud_conns :: "nat \<Rightarrow> (string \<times> ptree) list \<Rightarrow> error + int list list" where
  "parse_ud_conns col_no [] = Inr []"
| "parse_ud_conns col_no (ud # uds) =
     then_do (stoi (fst ud)) (\<lambda>n.
       if int col_no \<noteq> n then Inl AssertionFailed
       else
         then_do (int_array (snd ud)) (\<lambda>udc.
         then_do (parse_ud_conns (col_no + 1) uds) (\<lambda>cols. Inr (udc # cols))))"

text \<open>The span of one global of a column: looked up under the key
  \<^verbatim>\<open>std::to_string(global_no)\<close>.\<close>

definition branch_span :: "ptree \<Rightarrow> int \<Rightarrow> error + int \<times> int" where
  "branch_span spans global_no =
     then_do (get_child spans (to_string global_no)) (\<lambda>curr_sr. read_pair (children curr_sr))"

text \<open>The loop over \<^verbatim>\<open>branch-spans\<close>. It reads \<^verbatim>\<open>glbs.ud_conns[col_no]\<close>, which is out
  of range when there are extra span columns than up-down columns.\<close>

fun parse_branch_spans ::
  "int list list \<Rightarrow> nat \<Rightarrow> (string \<times> ptree) list \<Rightarrow> error + (int \<times> int) list list" where
  "parse_branch_spans udc col_no [] = Inr []"
| "parse_branch_spans udc col_no (spans # rest) =
     then_do (stoi (fst spans)) (\<lambda>n.
       if int col_no \<noteq> n then Inl AssertionFailed
       else if length udc \<le> col_no then Inl UndefinedBehaviour
       else
         then_do (for_each (branch_span (snd spans)) (udc ! col_no)) (\<lambda>sp.
         then_do (parse_branch_spans udc (col_no + 1) rest) (\<lambda>cols. Inr (sp # cols))))"

definition parse_missing_dccs :: "string \<times> ptree \<Rightarrow> error + MissingDccs" where
  "parse_missing_dccs dccs =
     then_do (stoi (fst dccs)) (\<lambda>row.
     then_do (int_array (snd dccs)) (\<lambda>missing.
       Inr \<lparr>md_row = row, md_missing = missing\<rparr>))"

definition get_global_info_machxo2 ::
  "filesystem \<Rightarrow> string \<Rightarrow> DeviceLocator \<Rightarrow> error + MachXO2GlobalsInfo" where
  "get_global_info_machxo2 fs db_root part =
     then_do (read_json fs (globals_path db_root part)) (\<lambda>glb_parsed.
     then_do (get_child glb_parsed ''lr-conns'') (\<lambda>lrs.
     then_do (for_each parse_lr_conn (children lrs)) (\<lambda>lr.
     then_do (get_child glb_parsed ''ud-conns'') (\<lambda>uds.
     then_do (parse_ud_conns 0 (children uds)) (\<lambda>ud.
     then_do (get_child glb_parsed ''branch-spans'') (\<lambda>bs.
     then_do (parse_branch_spans ud 0 (children bs)) (\<lambda>spans.
     then_do (get_child glb_parsed ''missing-dccs'') (\<lambda>ms.
     then_do (for_each parse_missing_dccs (children ms)) (\<lambda>missing.
       Inr \<lparr>lr_conns = lr, ud_conns = ud, branch_spans = spans,
            missing_dccs = missing\<rparr>)))))))))"

subsection \<open>The tile grid and its cache\<close>

record SiteInfo =
  si_type :: string
  si_row :: int
  si_col :: int

record TileInfo =
  ti_family :: string
  ti_device :: string
  ti_max_col :: int
  ti_max_row :: int
  ti_col_bias :: int
  ti_name :: string
  ti_type :: string
  ti_num_frames :: nat
  ti_bits_per_frame :: nat
  ti_bit_offset :: nat
  ti_frame_offset :: nat
  ti_sites :: "SiteInfo list"

text \<open>The conversion \<^verbatim>\<open>size_t(int)\<close>, \<^verbatim>\<open>size_t\<close> of 64 bits: a negative value wraps.\<close>

definition size_t_of_int :: "int \<Rightarrow> nat" where
  "size_t_of_int i = nat (i mod 2 ^ 64)"

definition parse_site :: "string \<times> ptree \<Rightarrow> error + SiteInfo" where
  "parse_site site =
     then_do (get_string (snd site) ''name'') (\<lambda>ty.
     then_do (get_int (snd site) ''pos_col'') (\<lambda>col.
     then_do (get_int (snd site) ''pos_row'') (\<lambda>row.
       Inr \<lparr>si_type = ty, si_row = row, si_col = col\<rparr>)))"

definition parse_tile :: "DeviceLocator \<Rightarrow> ChipInfo \<Rightarrow> string \<times> ptree \<Rightarrow> error + TileInfo" where
  "parse_tile part info tile =
     then_do (get_int (snd tile) ''cols'') (\<lambda>cols.
     then_do (get_int (snd tile) ''rows'') (\<lambda>rows.
     then_do (get_int (snd tile) ''start_bit'') (\<lambda>start_bit.
     then_do (get_int (snd tile) ''start_frame'') (\<lambda>start_frame.
     then_do (get_string (snd tile) ''type'') (\<lambda>ty.
     then_do (get_child (snd tile) ''sites'') (\<lambda>ss.
     then_do (for_each parse_site (children ss)) (\<lambda>sites.
       Inr \<lparr>ti_family = family part, ti_device = device part,
            ti_max_col = ci_max_col info, ti_max_row = ci_max_row info,
            ti_col_bias = ci_col_bias info,
            ti_name = fst tile, ti_type = ty,
            ti_num_frames = size_t_of_int cols, ti_bits_per_frame = size_t_of_int rows,
            ti_bit_offset = size_t_of_int start_bit,
            ti_frame_offset = size_t_of_int start_frame,
            ti_sites = sites\<rparr>)))))))"

text \<open>
  \<^verbatim>\<open>static map<string, pt::ptree> tilegrid_cache\<close>: a map from strings to trees. The
  function takes the cache and returns it with its result; the mutex makes each call
  one step. The cache is searched and filled under \<^verbatim>\<open>part.device\<close>.
\<close>

type_synonym tilegrid_cache = "string \<Rightarrow> ptree option"

definition get_device_tilegrid ::
  "filesystem \<Rightarrow> ptree \<Rightarrow> string \<Rightarrow> tilegrid_cache \<Rightarrow> DeviceLocator
     \<Rightarrow> (error + TileInfo list) \<times> tilegrid_cache" where
  "get_device_tilegrid fs devices_info db_root cache part =
     (if db_root = [] then (Inl AssertionFailed, cache)
      else
        case get_chip_info devices_info part of
          Inl e \<Rightarrow> (Inl e, cache)
        | Inr info \<Rightarrow>
            (case cache (device part) of
               None \<Rightarrow>
                 (case read_json fs (tilegrid_path db_root part) of
                    Inl e \<Rightarrow> (Inl e, cache)
                  | Inr tg_parsed \<Rightarrow>
                      (for_each (parse_tile part info) (children tg_parsed),
                       cache(device part \<mapsto> tg_parsed)))
             | Some tg \<Rightarrow> (for_each (parse_tile part info) (children tg), cache)))"

subsection \<open>The cache of tile bit databases\<close>

record TileLocator =
  tl_family :: string
  tiletype :: string

text \<open>
  \<^verbatim>\<open>static unordered_map<TileLocator, shared_ptr<TileBitDatabase>> bitdb_store\<close>. A shared
  pointer is the address of the object it owns: a handle is the index of the object in
  the list of all objects that \<^verbatim>\<open>new TileBitDatabase(...)\<close> has built so far. The
  constructor of \<^verbatim>\<open>TileBitDatabase\<close> is not part of this file; it is the parameter
  \<open>construct\<close>, from the path to the database or the error it raises.
\<close>

type_synonym handle = nat

record 'db bitdb_state =
  bitdb_store :: "TileLocator \<Rightarrow> handle option"
  heap :: "'db list"

definition bitdb_path :: "string \<Rightarrow> TileLocator \<Rightarrow> string" where
  "bitdb_path db_root tile =
     db_root @ ''/'' @ tl_family tile @ ''/tiledata/'' @ tiletype tile @ ''/bits.db''"

definition get_tile_bitdata ::
  "(string \<Rightarrow> error + 'db) \<Rightarrow> string \<Rightarrow> 'db bitdb_state \<Rightarrow> TileLocator
     \<Rightarrow> (error + handle) \<times> 'db bitdb_state" where
  "get_tile_bitdata construct db_root st tile =
     (case bitdb_store st tile of
        None \<Rightarrow>
          if db_root = [] then (Inl AssertionFailed, st)
          else
            (case construct (bitdb_path db_root tile) of
               Inl e \<Rightarrow> (Inl e, st)
             | Inr db \<Rightarrow>
                 (Inr (length (heap st)),
                  st\<lparr>heap := heap st @ [db],
                     bitdb_store := (bitdb_store st)(tile \<mapsto> length (heap st))\<rparr>))
      | Some bitdb \<Rightarrow> (Inr bitdb, st))"

section \<open>Vocabulary of the properties\<close>

text \<open>
  The definitions below are not part of the program: they name the inputs that the
  properties speak about (keys without a dot, the entries of a catalog in file order, a
  string without a number in front) and fix the example files that the properties are
  evaluated on.
\<close>

subsection \<open>Catalogs\<close>

text \<open>A key that \<^verbatim>\<open>get_child\<close> reads as one fragment: not empty, no dot.\<close>

definition plain_key :: "string \<Rightarrow> bool" where
  "plain_key k = (k \<noteq> [] \<and> CHR ''.'' \<notin> set k)"

text \<open>The (family, device, entry) triples of a catalog, in the order of the file.\<close>

definition family_entries :: "string \<times> ptree \<Rightarrow> (string \<times> string \<times> ptree) list" where
  "family_entries fam =
     (case get_child_optional (snd fam) ''devices'' of
        None \<Rightarrow> []
      | Some devs \<Rightarrow> map (\<lambda>dev. (fst fam, fst dev, snd dev)) (children devs))"

definition catalog_entries :: "ptree \<Rightarrow> (string \<times> string \<times> ptree) list" where
  "catalog_entries devices_info =
     (case get_child_optional devices_info ''families'' of
        None \<Rightarrow> []
      | Some fams \<Rightarrow> concat (map family_entries (children fams)))"

definition family_names :: "ptree \<Rightarrow> string list" where
  "family_names devices_info =
     (case get_child_optional devices_info ''families'' of
        None \<Rightarrow> []
      | Some fams \<Rightarrow> map fst (children fams))"

text \<open>A catalog has the child \<^verbatim>\<open>families\<close>, and each family the child \<^verbatim>\<open>devices\<close>.\<close>

definition catalog_shaped :: "ptree \<Rightarrow> bool" where
  "catalog_shaped devices_info =
     (case get_child_optional devices_info ''families'' of
        None \<Rightarrow> False
      | Some fams \<Rightarrow>
          list_all (\<lambda>fam. get_child_optional (snd fam) ''devices'' \<noteq> None) (children fams))"

definition locator_of :: "string \<times> string \<times> ptree \<Rightarrow> DeviceLocator" where
  "locator_of e = \<lparr>family = fst e, device = fst (snd e)\<rparr>"



subsection \<open>Example catalogs\<close>

definition leaf :: "string \<Rightarrow> ptree" where
  "leaf s = Node s []"

definition json_array :: "string list \<Rightarrow> ptree" where
  "json_array elems = Node [] (map (\<lambda>s. ([], leaf s)) elems)"



text \<open>The catalog of the round-trip scenario: one family \<^verbatim>\<open>F\<close>, one device \<^verbatim>\<open>D\<close> with
  idcode \<^verbatim>\<open>"0x10"\<close> and 4 frames, and the six other fields \<^verbatim>\<open>get_chip_info\<close> reads.\<close>

definition roundtrip_device :: ptree where
  "roundtrip_device =
     Node [] [(''idcode'', leaf ''0x10''), (''frames'', leaf ''4''),
              (''bits_per_frame'', leaf ''8''), (''pad_bits_after_frame'', leaf ''0''),
              (''pad_bits_before_frame'', leaf ''0''), (''max_row'', leaf ''1''),
              (''max_col'', leaf ''2''), (''col_bias'', leaf ''0'')]"

definition roundtrip_catalog :: ptree where
  "roundtrip_catalog =
     Node [] [(''families'', Node [] [(''F'', Node [] [(''devices'', Node []
       [(''D'', roundtrip_device)])])])]"

text \<open>The same catalog with the device named \<^verbatim>\<open>D.1\<close>.\<close>

definition dotted_catalog :: ptree where
  "dotted_catalog =
     Node [] [(''families'', Node [] [(''F'', Node [] [(''devices'', Node []
       [(''D.1'', roundtrip_device)])])])]"

subsection \<open>Example globals files of the MachXO2 family\<close>

text \<open>The columns of \<^verbatim>\<open>ud-conns\<close> are in order when the keys read 0, 1, 2, ...\<close>

definition columns_in_order :: "(string \<times> ptree) list \<Rightarrow> bool" where
  "columns_in_order cols =
     (map (\<lambda>col. stoi (fst col)) cols = map (\<lambda>i. Inr (int i)) [0..<length cols])"

definition machxo2_globals ::
  "(string \<times> ptree) list \<Rightarrow> (string \<times> ptree) list \<Rightarrow> ptree" where
  "machxo2_globals uds spans =
     Node [] [(''lr-conns'', Node [] [(''lr0'', Node [] [(''row'', leaf ''3''),
                 (''row-span'', json_array [''0'', ''9''])])]),
              (''ud-conns'', Node [] uds),
              (''branch-spans'', Node [] spans),
              (''missing-dccs'', Node [] [(''4'', json_array [''6'', ''7''])])]"

definition example_part :: DeviceLocator where
  "example_part = \<lparr>family = ''MachXO2'', device = ''LCMXO2-1200''\<rparr>"

definition single_file :: "string \<Rightarrow> ptree \<Rightarrow> filesystem" where
  "single_file path t = (\<lambda>p. if p = path then Some t else None)"

text \<open>Columns in the file order 0, 2, 1.\<close>

definition out_of_order_uds :: "(string \<times> ptree) list" where
  "out_of_order_uds =
     [(''0'', json_array [''0'', ''1'']), (''2'', json_array [''2'']), (''1'', json_array [''3''])]"

text \<open>Column 2 declares the globals 4, 5 and 6 and has spans for 4 and 5 only.\<close>

definition three_uds :: "(string \<times> ptree) list" where
  "three_uds =
     [(''0'', json_array [''0'']), (''1'', json_array [''1'']),
      (''2'', json_array [''4'', ''5'', ''6''])]"

definition two_spans :: "(string \<times> ptree) list" where
  "two_spans =
     [(''0'', Node [] [(''0'', json_array [''0'', ''3''])]),
      (''1'', Node [] [(''1'', json_array [''0'', ''3''])]),
      (''2'', Node [] [(''4'', json_array [''1'', ''2'']), (''5'', json_array [''3'', ''4''])])]"

text \<open>Column 0 declares the global 5 and has spans for 5 and 6.\<close>

definition surplus_uds :: "(string \<times> ptree) list" where
  "surplus_uds = [(''0'', json_array [''5''])]"

definition surplus_spans :: "(string \<times> ptree) list" where
  "surplus_spans =
     [(''0'', Node [] [(''5'', json_array [''1'', ''2'']), (''6'', json_array [''3'', ''4''])])]"


subsection \<open>Sequences of calls on the caches\<close>

text \<open>The mutex around each cache makes a call one atomic step, so the life of the
  process is a sequence of calls; each call comes with the file system (or the
  constructor) of its moment.\<close>

type_synonym 'db bitdata_call = "(string \<Rightarrow> error + 'db) \<times> TileLocator"

fun run_bitdata :: "string \<Rightarrow> 'db bitdb_state \<Rightarrow> 'db bitdata_call list \<Rightarrow> 'db bitdb_state" where
  "run_bitdata db_root st [] = st"
| "run_bitdata db_root st (c # cs) =
     run_bitdata db_root (snd (get_tile_bitdata (fst c) db_root st (snd c))) cs"

fun constructions ::
  "TileLocator \<Rightarrow> string \<Rightarrow> 'db bitdb_state \<Rightarrow> 'db bitdata_call list \<Rightarrow> nat" where
  "constructions tile db_root st [] = 0"
| "constructions tile db_root st (c # cs) =
     (let st' = snd (get_tile_bitdata (fst c) db_root st (snd c))
      in (if snd c = tile \<and> length (heap st') \<noteq> length (heap st) then 1 else 0)
           + constructions tile db_root st' cs)"

type_synonym tilegrid_call = "filesystem \<times> DeviceLocator"

fun run_tilegrid ::
  "ptree \<Rightarrow> string \<Rightarrow> tilegrid_cache \<Rightarrow> tilegrid_call list \<Rightarrow> tilegrid_cache" where
  "run_tilegrid devices_info db_root cache [] = cache"
| "run_tilegrid devices_info db_root cache (c # cs) =
     run_tilegrid devices_info db_root
       (snd (get_device_tilegrid (fst c) devices_info db_root cache (snd c))) cs"

subsection \<open>Example states of the caches\<close>

definition empty_bitdb :: "string bitdb_state" where
  "empty_bitdb = \<lparr>bitdb_store = (\<lambda>tile. None), heap = []\<rparr>"

definition plc2 :: TileLocator where
  "plc2 = \<lparr>tl_family = ''ECP5'', tiletype = ''PLC2''\<rparr>"

definition mib_ebr :: TileLocator where
  "mib_ebr = \<lparr>tl_family = ''ECP5'', tiletype = ''MIB_EBR''\<rparr>"

text \<open>Two constructors for the examples: one that returns the path as the database it
  has read, one that finds no file.\<close>

definition load_path :: "string \<Rightarrow> error + string" where
  "load_path path = Inr path"

definition load_fails :: "string \<Rightarrow> error + string" where
  "load_fails path = Inl RuntimeError"

definition plc2_loaded :: "string bitdb_state" where
  "plc2_loaded = \<lparr>bitdb_store = (\<lambda>tile. None)(plc2 \<mapsto> 0), heap = [bitdb_path ''/db'' plc2]\<rparr>"

definition two_family_catalog :: ptree where
  "two_family_catalog =
     Node [] [(''families'', Node []
       [(''F1'', Node [] [(''devices'', Node [] [(''D'', roundtrip_device)])]),
        (''F2'', Node [] [(''devices'', Node [] [(''D'', roundtrip_device)])])])]"

definition tile_entry :: "string \<Rightarrow> ptree" where
  "tile_entry ty =
     Node [] [(''cols'', leaf ''2''), (''rows'', leaf ''3''), (''start_bit'', leaf ''0''),
              (''start_frame'', leaf ''5''), (''type'', leaf ty),
              (''sites'', Node [] [([], Node [] [(''name'', leaf ''SLICE''),
                 (''pos_col'', leaf ''1''), (''pos_row'', leaf ''2'')])])]"

definition grid_f1 :: ptree where
  "grid_f1 = Node [] [(''T1'', tile_entry ''PLC2'')]"

definition grid_f2 :: ptree where
  "grid_f2 = Node [] [(''T2'', tile_entry ''MIB'')]"

definition two_grids :: filesystem where
  "two_grids =
     (\<lambda>path. if path = ''/db/F1/D/tilegrid.json'' then Some grid_f1
             else if path = ''/db/F2/D/tilegrid.json'' then Some grid_f2
             else None)"

definition no_files :: filesystem where
  "no_files = (\<lambda>path. None)"

definition tile_info :: "string \<Rightarrow> string \<Rightarrow> string \<Rightarrow> TileInfo" where
  "tile_info fam tile_name ty =
     \<lparr>ti_family = fam, ti_device = ''D'', ti_max_col = 2, ti_max_row = 1, ti_col_bias = 0,
      ti_name = tile_name, ti_type = ty, ti_num_frames = 2, ti_bits_per_frame = 3,
      ti_bit_offset = 0, ti_frame_offset = 5,
      ti_sites = [\<lparr>si_type = ''SLICE'', si_row = 2, si_col = 1\<rparr>]\<rparr>"

definition chip_d :: "string \<Rightarrow> ChipInfo" where
  "chip_d fam =
     \<lparr>ci_family = fam, ci_name = ''D'', ci_num_frames = 4, ci_bits_per_frame = 8,
      ci_pad_bits_before_frame = 0, ci_pad_bits_after_frame = 0, ci_idcode = 16,
      ci_max_row = 1, ci_max_col = 2, ci_col_bias = 0\<rparr>"

subsection \<open>An example globals file of the ECP5 family\<close>

definition quadrant_tree :: ptree where
  "quadrant_tree = Node [] [(''x0'', leaf ''0''), (''x1'', leaf ''30''),
                            (''y0'', leaf ''0''), (''y1'', leaf ''20'')]"

definition tap_tree :: ptree where
  "tap_tree = Node [] [(''lx0'', leaf ''1''), (''lx1'', leaf ''11''),
                       (''rx0'', leaf ''12''), (''rx1'', leaf ''20'')]"

definition spine_tree :: ptree where
  "spine_tree = Node [] [(''y'', leaf ''5''), (''x'', leaf ''12'')]"

text \<open>An ECP5 globals file; the taps are in the order C12, C3.\<close>

definition ecp5_globals :: ptree where
  "ecp5_globals =
     Node [] [(''quadrants'', Node [] [(''UL'', quadrant_tree)]),
              (''taps'', Node [] [(''C12'', tap_tree), (''C3'', tap_tree)]),
              (''spines'', Node [] [(''UL12'', spine_tree)])]"

definition ecp5_part :: DeviceLocator where
  "ecp5_part = \<lparr>family = ''ECP5'', device = ''LFE5U-25F''\<rparr>"

definition ecp5_expected :: Ecp5GlobalsInfo where
  "ecp5_expected =
     \<lparr>quadrants = [\<lparr>rg_name = ''UL'', rg_x0 = 0, rg_x1 = 30, rg_y0 = 0, rg_y1 = 20\<rparr>],
      tapsegs = [\<lparr>ts_tap_col = 12, ts_lx0 = 1, ts_lx1 = 11, ts_rx0 = 12, ts_rx1 = 20\<rparr>,
                 \<lparr>ts_tap_col = 3, ts_lx0 = 1, ts_lx1 = 11, ts_rx0 = 12, ts_rx1 = 20\<rparr>],
      spinesegs = [\<lparr>ss_quadrant = ''UL'', ss_tap_col = 12, ss_spine_row = 5, ss_spine_col = 12\<rparr>]\<rparr>"

section \<open>Properties\<close>

subsection \<open>Sequencing, paths and loops\<close>

lemma then_do_Inr [simp]: "then_do (Inr x) f = f x"
  by (simp add: then_do_def)

lemma then_do_Inl [simp]: "then_do (Inl e) f = Inl e"
  by (simp add: then_do_def)

lemma then_do_eq_Inr:
  "then_do m f = Inr y \<longleftrightarrow> (\<exists>x. m = Inr x \<and> f x = Inr y)"
  by (cases m) simp_all

lemma split_dots_plain: "CHR ''.'' \<notin> set k \<Longrightarrow> split_dots k = [k]"
  by (induction k) auto

lemma path_fragments_plain: "plain_key k \<Longrightarrow> path_fragments k = [k]"
  by (simp add: plain_key_def path_fragments_def split_dots_plain)

lemma get_child_optional_plain:
  "plain_key k \<Longrightarrow> get_child_optional t k = map_of (children t) k"
  by (simp add: get_child_optional_def path_fragments_plain split: option.splits)

lemma plain_devices [simp]: "plain_key ''devices''"
  by (simp add: plain_key_def)

lemma get_child_optional_self [simp]: "get_child_optional t [] = Some t"
  by (simp add: get_child_optional_def path_fragments_def)

lemma get_child_self [simp]: "get_child t [] = Inr t"
  by (simp add: get_child_def)

lemma for_each_Inr_iff:
  "for_each f xs = Inr ys \<longleftrightarrow> list_all2 (\<lambda>x y. f x = Inr y) xs ys"
proof (induction xs arbitrary: ys)
  case Nil
  then show ?case by auto
next
  case (Cons x xs)
  show ?case
    by (cases ys) (auto simp: then_do_eq_Inr Cons.IH)
qed

lemma for_each_append:
  "for_each f (xs @ ys) =
     then_do (for_each f xs) (\<lambda>a. then_do (for_each f ys) (\<lambda>b. Inr (a @ b)))"
proof (induction xs)
  case Nil
  show ?case by (cases "for_each f ys") simp_all
next
  case (Cons x xs)
  show ?case
    by (cases "f x"; cases "for_each f xs"; cases "for_each f ys") (simp_all add: Cons)
qed

lemma for_each_Inl:
  assumes "x \<in> set xs" and "f x = Inl e"
  shows "\<exists>e'. for_each f xs = Inl e'"
proof (cases "for_each f xs")
  case (Inl a)
  then show ?thesis by simp
next
  case (Inr ys)
  then have "list_all2 (\<lambda>x y. f x = Inr y) xs ys"
    by (simp add: for_each_Inr_iff)
  with assms(1) obtain y where "f x = Inr y"
    by (auto simp: list_all2_conv_all_nth in_set_conv_nth)
  with assms(2) show ?thesis by simp
qed

subsection \<open>Decimal numbers\<close>


lemma of_char_digit_char: "d < 10 \<Longrightarrow> (of_char (digit_char d) :: nat) = 48 + d"
  by (simp add: digit_char_def)

lemma isdigit_digit_char: "d < 10 \<Longrightarrow> isdigit (digit_char d)"
  by (simp add: isdigit_def of_char_digit_char)

lemma digit_val_digit_char: "d < 10 \<Longrightarrow> digit_val 10 (digit_char d) = Some d"
  by (simp add: digit_val_def of_char_digit_char)

lemma isdigit_not_space: "isdigit c \<Longrightarrow> \<not> isspace c"
  by (auto simp: isdigit_def isspace_def Let_def)

lemma isdigit_not_sign: "isdigit c \<Longrightarrow> c \<noteq> CHR ''-'' \<and> c \<noteq> CHR ''+''"
  by (auto simp: isdigit_def)

lemma decimal_digits: "list_all isdigit (decimal n)"
proof (induction n rule: decimal.induct)
  case (1 n)
  show ?case
  proof (cases "10 \<le> n")
    case True
    with 1 show ?thesis
      by (subst decimal.simps) (simp add: isdigit_digit_char)
  next
    case False
    then show ?thesis
      by (subst decimal.simps) (simp add: isdigit_digit_char)
  qed
qed

lemma decimal_not_Nil: "decimal n \<noteq> []"
  by (subst decimal.simps) simp

lemma digits_value_snoc:
  "digits_value b (ds @ [c]) = digits_value b ds * b + the (digit_val b c)"
  by (simp add: digits_value_def)

lemma digits_value_decimal: "digits_value 10 (decimal n) = n"
proof (induction n rule: decimal.induct)
  case (1 n)
  show ?case
  proof (cases "10 \<le> n")
    case True
    then have "digits_value 10 (decimal n) = digits_value 10 (decimal (n div 10)) * 10 + n mod 10"
      by (subst decimal.simps) (simp add: digits_value_snoc digit_val_digit_char)
    with 1 True show ?thesis by simp
  next
    case False
    then show ?thesis
      by (subst decimal.simps) (simp add: digits_value_def digit_val_digit_char)
  qed
qed

lemma number_prefix_decimal:
  "dropWhile isspace (decimal n) = decimal n"
  "strip_sign (decimal n) = (False, decimal n)"
  "takeWhile isdigit (decimal n) = decimal n"
proof -
  obtain c cs where s: "decimal n = c # cs"
    using decimal_not_Nil [of n] by (cases "decimal n") auto
  with decimal_digits [of n] have c: "isdigit c" by simp
  show "dropWhile isspace (decimal n) = decimal n"
    using isdigit_not_space [OF c] by (simp add: s)
  show "strip_sign (decimal n) = (False, decimal n)"
    using isdigit_not_sign [OF c] by (simp add: s strip_sign_def)
  show "takeWhile isdigit (decimal n) = decimal n"
    using decimal_digits [of n] by (simp add: takeWhile_eq_all_conv list_all_iff)
qed

lemma stoi_to_string:
  assumes "- (2 ^ 31) \<le> i" and "i < 2 ^ 31"
  shows "stoi (to_string i) = Inr i"
proof (cases "i < 0")
  case True
  have "\<not> isspace (CHR ''-'')"
    by (simp add: isspace_def)
  then have "strip_sign (dropWhile isspace (to_string i)) = (True, decimal (nat (- i)))"
    using True by (simp add: to_string_def strip_sign_def)
  with True assms show ?thesis
    by (simp add: stoi_def number_prefix_decimal digits_value_decimal decimal_not_Nil)
next
  case False
  then have "strip_sign (dropWhile isspace (to_string i)) = (False, decimal (nat i))"
    by (simp add: to_string_def number_prefix_decimal)
  with False assms show ?thesis
    by (simp add: stoi_def number_prefix_decimal digits_value_decimal decimal_not_Nil)
qed





subsection \<open>Scanning the catalog\<close>

lemma find_append_cases:
  "find P (xs @ ys) = (case find P xs of None \<Rightarrow> find P ys | Some x \<Rightarrow> Some x)"
  by (induction xs) auto

lemma scan_devices_find:
  assumes "\<forall>dev \<in> set devs. p (fst dev) (snd dev) = Inr (q (fam, fst dev, snd dev))"
  shows "scan_devices p fam devs =
           Inr (map_option locator_of (find q (map (\<lambda>dev. (fam, fst dev, snd dev)) devs)))"
  using assms by (induction devs) (auto simp: locator_of_def)

lemma scan_families_find:
  assumes "list_all (\<lambda>fam. get_child_optional (snd fam) ''devices'' \<noteq> None) fams"
    and "\<forall>e \<in> set (concat (map family_entries fams)). p (fst (snd e)) (snd (snd e)) = Inr (q e)"
  shows "scan_families p fams = Inr (map_option locator_of (find q (concat (map family_entries fams))))"
  using assms
proof (induction fams)
  case Nil
  then show ?case by simp
next
  case (Cons fam fams)
  from Cons.prems(1) obtain devs where devs: "get_child_optional (snd fam) ''devices'' = Some devs"
    by auto
  have fe: "family_entries fam = map (\<lambda>dev. (fst fam, fst dev, snd dev)) (children devs)"
    by (simp add: family_entries_def devs)
  have "\<forall>dev \<in> set (children devs). p (fst dev) (snd dev) = Inr (q (fst fam, fst dev, snd dev))"
  proof
    fix dev assume "dev \<in> set (children devs)"
    then have "(fst fam, fst dev, snd dev) \<in> set (concat (map family_entries (fam # fams)))"
      by (simp add: fe)
    with Cons.prems(2) show "p (fst dev) (snd dev) = Inr (q (fst fam, fst dev, snd dev))"
      by fastforce
  qed
  then have sd: "scan_devices p (fst fam) (children devs) =
      Inr (map_option locator_of (find q (family_entries fam)))"
    unfolding fe by (rule scan_devices_find)
  have ih: "scan_families p fams = Inr (map_option locator_of (find q (concat (map family_entries fams))))"
    using Cons by simp
  show ?case
    by (cases "find q (family_entries fam)")
       (simp_all add: get_child_def devs sd ih find_append_cases)
qed

lemma find_device_generic_find:
  assumes "catalog_shaped cat"
    and "\<forall>e \<in> set (catalog_entries cat). p (fst (snd e)) (snd (snd e)) = Inr (q e)"
  shows "find_device_generic cat p = Inr (map_option locator_of (find q (catalog_entries cat)))"
proof -
  from assms(1) obtain fams where fams: "get_child_optional cat ''families'' = Some fams"
    and all: "list_all (\<lambda>fam. get_child_optional (snd fam) ''devices'' \<noteq> None) (children fams)"
    by (auto simp: catalog_shaped_def split: option.splits)
  have ce: "catalog_entries cat = concat (map family_entries (children fams))"
    by (simp add: catalog_entries_def fams)
  show ?thesis
    using scan_families_find [OF all, of p q] assms(2)
    by (simp add: find_device_generic_def get_child_def fams ce)
qed



lemmas num_defs = parse_uint32_def strtoul_def strip_sign_def strtoul_prefix_def isspace_def
  isdigit_def is_digit_in_def digit_val_def digits_value_def ULONG_MAX_def







subsection \<open>Strings that are not numbers\<close>








subsection \<open>From a name to the chip\<close>

lemma find_fst_map_of:
  "find (\<lambda>dev. fst dev = k) xs = Some (d, t) \<Longrightarrow> d = k \<and> map_of xs k = Some t"
  by (induction xs) (auto split: if_splits)

lemma find_in_family_entries:
  assumes "find (\<lambda>e. fst (snd e) = name) (family_entries fam) = Some (f, d, t)"
  shows "f = fst fam \<and> (\<exists>devs. get_child_optional (snd fam) ''devices'' = Some devs
           \<and> find (\<lambda>dev. fst dev = name) (children devs) = Some (d, t))"
proof (cases "get_child_optional (snd fam) ''devices''")
  case None
  with assms show ?thesis by (simp add: family_entries_def)
next
  case (Some devs)
  have "find (\<lambda>e. fst (snd e) = name) (map (\<lambda>dev. (x, fst dev, snd dev)) ds) = Some (f, d, t)
        \<Longrightarrow> f = x \<and> find (\<lambda>dev. fst dev = name) ds = Some (d, t)" for x ds
    by (induction ds) (auto split: if_splits)
  with assms Some show ?thesis
    by (simp add: family_entries_def)
qed

lemma find_in_catalog:
  assumes "find (\<lambda>e. fst (snd e) = name) (concat (map family_entries fams)) = Some (f, d, t)"
  shows "\<exists>ft devs. (f, ft) \<in> set fams \<and> get_child_optional ft ''devices'' = Some devs
           \<and> find (\<lambda>dev. fst dev = name) (children devs) = Some (d, t)"
  using assms
proof (induction fams)
  case Nil
  then show ?case by simp
next
  case (Cons fam fams)
  show ?case
  proof (cases "find (\<lambda>e. fst (snd e) = name) (family_entries fam)")
    case None
    with Cons show ?thesis
      by (auto simp: find_append_cases)
  next
    case (Some e)
    with Cons.prems have "find (\<lambda>e. fst (snd e) = name) (family_entries fam) = Some (f, d, t)"
      by (simp add: find_append_cases)
    from find_in_family_entries [OF this] show ?thesis
      by (cases fam) auto
  qed
qed

lemma get_child_Inr_plain:
  "plain_key k \<Longrightarrow> map_of (children t) k = Some c \<Longrightarrow> get_child t k = Inr c"
  by (simp add: get_child_def get_child_optional_plain)

text \<open>
  Where the lookup by name and the lookup by locator agree. For a device name present
  in the catalog that \<^verbatim>\<open>get_child\<close> reads as one path fragment (not empty, no dot),
  \<^verbatim>\<open>find_device_by_name\<close> returns the locator of the first entry with that name, and
  \<^verbatim>\<open>get_chip_info\<close> of that locator returns a \<^verbatim>\<open>ChipInfo\<close> with the family and the
  name of the locator and with the numeric fields of that entry. The family keys are
  distinct and are single path fragments too, and the entry carries the eight fields
  that \<^verbatim>\<open>get_chip_info\<close> reads.
\<close>

lemma find_by_name_then_chip_info:
  assumes shaped: "catalog_shaped cat"
    and fam_distinct: "distinct (family_names cat)"
    and fam_plain: "list_all plain_key (family_names cat)"
    and name_plain: "plain_key name"
    and present: "find (\<lambda>e. fst (snd e) = name) (catalog_entries cat) = Some (f, d, t)"
    and fields:
      "get_int t ''frames'' = Inr frames"
      "get_int t ''bits_per_frame'' = Inr bpf"
      "get_int t ''pad_bits_after_frame'' = Inr pad_after"
      "get_int t ''pad_bits_before_frame'' = Inr pad_before"
      "get_string t ''idcode'' = Inr idc"
      "get_int t ''max_row'' = Inr mrow"
      "get_int t ''max_col'' = Inr mcol"
      "get_int t ''col_bias'' = Inr bias"
  shows "find_device_by_name cat name = Inr \<lparr>family = f, device = name\<rparr>
       \<and> get_chip_info cat \<lparr>family = f, device = name\<rparr> =
           Inr \<lparr>ci_family = f, ci_name = name,
                ci_num_frames = frames, ci_bits_per_frame = bpf,
                ci_pad_bits_before_frame = pad_before, ci_pad_bits_after_frame = pad_after,
                ci_idcode = parse_uint32 idc,
                ci_max_row = mrow, ci_max_col = mcol, ci_col_bias = bias\<rparr>"
proof -
  from shaped obtain fams where fams: "get_child_optional cat ''families'' = Some fams"
    by (auto simp: catalog_shaped_def split: option.splits)
  have ce: "catalog_entries cat = concat (map family_entries (children fams))"
    by (simp add: catalog_entries_def fams)
  have fn: "family_names cat = map fst (children fams)"
    by (simp add: family_names_def fams)
  from find_in_catalog [OF present [unfolded ce]]
  obtain ft devs where ft: "(f, ft) \<in> set (children fams)"
    and devs: "get_child_optional ft ''devices'' = Some devs"
    and dev: "find (\<lambda>dev. fst dev = name) (children devs) = Some (d, t)"
    by blast
  from find_fst_map_of [OF dev] have d: "d = name" and mt: "map_of (children devs) name = Some t"
    by simp_all
  have mf: "map_of (children fams) f = Some ft"
    using fam_distinct ft by (simp add: fn)
  have pf: "plain_key f"
    using fam_plain ft by (force simp: fn list_all_iff)
  have "find_device_generic cat (\<lambda>n p. Inr (n = name)) =
          Inr (map_option locator_of (find (\<lambda>e. fst (snd e) = name) (catalog_entries cat)))"
    by (rule find_device_generic_find [OF shaped]) simp
  then have by_name: "find_device_by_name cat name = Inr \<lparr>family = f, device = name\<rparr>"
    by (simp add: find_device_by_name_def present locator_of_def d)
  have g1: "get_child cat ''families'' = Inr fams"
    by (simp add: get_child_def fams)
  have g3: "get_child ft ''devices'' = Inr devs"
    by (simp add: get_child_def devs)
  have chip: "get_chip_info cat \<lparr>family = f, device = name\<rparr> =
           Inr \<lparr>ci_family = f, ci_name = name,
                ci_num_frames = frames, ci_bits_per_frame = bpf,
                ci_pad_bits_before_frame = pad_before, ci_pad_bits_after_frame = pad_after,
                ci_idcode = parse_uint32 idc,
                ci_max_row = mrow, ci_max_col = mcol, ci_col_bias = bias\<rparr>"
    by (simp add: get_chip_info_def get_child_Inr_plain [OF pf mf]
        get_child_Inr_plain [OF name_plain mt] g1 g3 fields)
  from by_name chip show ?thesis ..
qed

lemmas int_defs = translate_int_def strip_sign_def isspace_def isdigit_def digits_value_def digit_val_def

lemma roundtrip_fields:
  "get_int roundtrip_device ''frames'' = Inr 4"
  "get_int roundtrip_device ''bits_per_frame'' = Inr 8"
  "get_int roundtrip_device ''pad_bits_after_frame'' = Inr 0"
  "get_int roundtrip_device ''pad_bits_before_frame'' = Inr 0"
  "get_string roundtrip_device ''idcode'' = Inr ''0x10''"
  "get_int roundtrip_device ''max_row'' = Inr 1"
  "get_int roundtrip_device ''max_col'' = Inr 2"
  "get_int roundtrip_device ''col_bias'' = Inr 0"
  by (simp_all add: roundtrip_device_def leaf_def get_int_def get_string_def get_child_def
      get_value_int_def get_child_optional_plain plain_key_def int_defs)

lemma roundtrip_entries:
  "catalog_entries roundtrip_catalog = [(''F'', ''D'', roundtrip_device)]"
  by (simp add: roundtrip_catalog_def catalog_entries_def family_entries_def
      get_child_optional_plain plain_key_def)

lemma roundtrip_shape:
  "catalog_shaped roundtrip_catalog" "family_names roundtrip_catalog = [''F'']"
  by (simp_all add: roundtrip_catalog_def catalog_shaped_def family_names_def
      get_child_optional_plain plain_key_def)

text \<open>The round-trip scenario: family \<^verbatim>\<open>F\<close>, device \<^verbatim>\<open>D\<close>, idcode \<^verbatim>\<open>"0x10"\<close>, 4 frames.\<close>

lemma find_by_name_then_chip_info_witness:
  "catalog_shaped roundtrip_catalog
   \<and> distinct (family_names roundtrip_catalog)
   \<and> list_all plain_key (family_names roundtrip_catalog)
   \<and> plain_key ''D''
   \<and> find (\<lambda>e. fst (snd e) = ''D'') (catalog_entries roundtrip_catalog)
        = Some (''F'', ''D'', roundtrip_device)
   \<and> find_device_by_name roundtrip_catalog ''D'' = Inr \<lparr>family = ''F'', device = ''D''\<rparr>
   \<and> get_chip_info roundtrip_catalog \<lparr>family = ''F'', device = ''D''\<rparr> =
        Inr \<lparr>ci_family = ''F'', ci_name = ''D'', ci_num_frames = 4, ci_bits_per_frame = 8,
             ci_pad_bits_before_frame = 0, ci_pad_bits_after_frame = 0, ci_idcode = 16,
             ci_max_row = 1, ci_max_col = 2, ci_col_bias = 0\<rparr>"
proof -
  have sh: "catalog_shaped roundtrip_catalog"
    and di: "distinct (family_names roundtrip_catalog)"
    and pl: "list_all plain_key (family_names roundtrip_catalog)"
    and pd: "plain_key ''D''"
    by (simp_all add: roundtrip_shape plain_key_def)
  have pr: "find (\<lambda>e. fst (snd e) = ''D'') (catalog_entries roundtrip_catalog)
        = Some (''F'', ''D'', roundtrip_device)"
    by (simp add: roundtrip_entries)
  have idc: "parse_uint32 ''0x10'' = 16"
    by (simp add: num_defs)
  show ?thesis
    using find_by_name_then_chip_info [OF sh di pl pd pr roundtrip_fields] sh di pl pd pr
    by (simp add: idc)
qed

text \<open>
  \<^bold>\<open>C5.\<close> \<^verbatim>\<open>find_device_by_name\<close> compares the name with the keys of the device entries
  as they stand, while \<^verbatim>\<open>get_chip_info\<close> hands \<^verbatim>\<open>part.family\<close> and \<^verbatim>\<open>part.device\<close> to
  \<^verbatim>\<open>get_child\<close>, which reads them as paths and splits them at every dot. For the device
  \<^verbatim>\<open>D.1\<close>, present in the catalog with all its fields, \<^verbatim>\<open>find_device_by_name\<close> returns
  the locator and \<^verbatim>\<open>get_chip_info\<close> of that locator looks for a child \<^verbatim>\<open>D\<close>, finds
  none and raises \<^verbatim>\<open>ptree_bad_path\<close>: no \<^verbatim>\<open>ChipInfo\<close> is returned.
\<close>

theorem chip_info_of_dotted_name:
  "catalog_entries dotted_catalog = [(''F'', ''D.1'', roundtrip_device)]
   \<and> find_device_by_name dotted_catalog ''D.1'' = Inr \<lparr>family = ''F'', device = ''D.1''\<rparr>
   \<and> get_chip_info dotted_catalog \<lparr>family = ''F'', device = ''D.1''\<rparr> = Inl PtreeBadPath"
proof -
  let ?devs = "Node [] [(''D.1'', roundtrip_device)]"
  let ?fam = "Node [] [(''devices'', ?devs)]"
  let ?fams = "Node [] [(''F'', ?fam)]"
  have entries: "catalog_entries dotted_catalog = [(''F'', ''D.1'', roundtrip_device)]"
    by (simp add: dotted_catalog_def catalog_entries_def family_entries_def
        get_child_optional_plain plain_key_def)
  have steps:
    "get_child dotted_catalog ''families'' = Inr ?fams"
    "get_child ?fams ''F'' = Inr ?fam"
    "get_child ?fam ''devices'' = Inr ?devs"
    by (simp_all add: dotted_catalog_def get_child_def get_child_optional_plain plain_key_def)
  have fragments: "path_fragments ''D.1'' = [''D'', ''1'']"
    by (simp add: path_fragments_def)
  have missing: "get_child ?devs ''D.1'' = Inl PtreeBadPath"
    by (simp add: get_child_def get_child_optional_def fragments)
  have found: "find_device_by_name dotted_catalog ''D.1'' = Inr \<lparr>family = ''F'', device = ''D.1''\<rparr>"
    by (simp add: find_device_by_name_def find_device_generic_def steps)
  have chip: "get_chip_info dotted_catalog \<lparr>family = ''F'', device = ''D.1''\<rparr> = Inl PtreeBadPath"
    by (simp add: get_chip_info_def steps missing)
  from entries found chip show ?thesis
    by (intro conjI)
qed

subsection \<open>MachXO2 globals: the order of the columns\<close>

lemma upt_shift: "[c..<c + Suc n] = c # [Suc c..<Suc c + n]"
proof -
  have "c < c + Suc n" by simp
  then have "[c..<c + Suc n] = c # [Suc c..<c + Suc n]"
    by (rule upt_conv_Cons)
  then show ?thesis by (simp only: add_Suc add_Suc_right)
qed

lemma parse_ud_conns_keys:
  "parse_ud_conns col_no uds = Inr r \<Longrightarrow>
     map (\<lambda>col. stoi (fst col)) uds = map (\<lambda>i. Inr (int i)) [col_no..<col_no + length uds]"
proof (induction uds arbitrary: col_no r)
  case Nil
  then show ?case by simp
next
  case (Cons ud uds)
  from Cons.prems obtain udc cols where k: "stoi (fst ud) = Inr (int col_no)"
    and rest: "parse_ud_conns (col_no + 1) uds = Inr cols"
    by (auto simp: then_do_eq_Inr split: if_splits)
  from Cons.IH [OF rest] have
    "map (\<lambda>col. stoi (fst col)) uds = map (\<lambda>i. Inr (int i)) [Suc col_no..<Suc col_no + length uds]"
    by simp
  with k show ?case
    by (simp only: list.map length_Cons upt_shift)
qed

lemma parse_ud_conns_append:
  "parse_ud_conns col_no (xs @ ys) =
     then_do (parse_ud_conns col_no xs) (\<lambda>a.
     then_do (parse_ud_conns (col_no + length xs) ys) (\<lambda>b. Inr (a @ b)))"
proof (induction xs arbitrary: col_no)
  case Nil
  show ?case by (cases "parse_ud_conns col_no ys") simp_all
next
  case (Cons x xs)
  show ?case
    by (cases "stoi (fst x)"; cases "int_array (snd x)";
        cases "parse_ud_conns (Suc col_no) xs";
        cases "parse_ud_conns (Suc (col_no + length xs)) ys")
       (simp_all add: Cons)
qed

text \<open>
  \<^bold>\<open>C6.\<close> A MachXO2 globals file whose \<^verbatim>\<open>ud-conns\<close> keys do not read 0, 1, 2, ... in
  file order is never loaded: \<^verbatim>\<open>get_global_info_machxo2\<close> returns no value. When the
  file is sound up to the first column that is out of place (the \<^verbatim>\<open>lr-conns\<close> and the
  columns before it are read without error, and its key is a number), the result is the
  failed assertion \<^verbatim>\<open>col_no == std::stoi(ud.first)\<close>, the ConsistencyError of the
  specification.
\<close>

theorem machxo2_columns_out_of_order:
  assumes readable: "fs (globals_path db_root part) = Some glb"
    and uds: "get_child glb ''ud-conns'' = Inr uds"
  shows "(\<not> columns_in_order (children uds)
            \<longrightarrow> (\<exists>e. get_global_info_machxo2 fs db_root part = Inl e))
       \<and> (get_child glb ''lr-conns'' = Inr lrs \<and> for_each parse_lr_conn (children lrs) = Inr lr
            \<and> children uds = before @ col # after
            \<and> parse_ud_conns 0 before = Inr udc
            \<and> stoi (fst col) = Inr n \<and> n \<noteq> int (length before)
            \<longrightarrow> get_global_info_machxo2 fs db_root part = Inl AssertionFailed)"
proof (intro conjI impI)
  assume bad: "\<not> columns_in_order (children uds)"
  show "\<exists>e. get_global_info_machxo2 fs db_root part = Inl e"
  proof (cases "get_global_info_machxo2 fs db_root part")
    case (Inl e)
    then show ?thesis by simp
  next
    case (Inr g)
    then obtain ud where "parse_ud_conns 0 (children uds) = Inr ud"
      by (auto simp: get_global_info_machxo2_def read_json_def readable uds then_do_eq_Inr)
    from parse_ud_conns_keys [OF this] have "columns_in_order (children uds)"
      by (simp add: columns_in_order_def)
    with bad show ?thesis by simp
  qed
next
  assume a: "get_child glb ''lr-conns'' = Inr lrs \<and> for_each parse_lr_conn (children lrs) = Inr lr
            \<and> children uds = before @ col # after
            \<and> parse_ud_conns 0 before = Inr udc
            \<and> stoi (fst col) = Inr n \<and> n \<noteq> int (length before)"
  then have "parse_ud_conns 0 (children uds) = Inl AssertionFailed"
    by (simp add: parse_ud_conns_append)
  with a show "get_global_info_machxo2 fs db_root part = Inl AssertionFailed"
    by (simp add: get_global_info_machxo2_def read_json_def readable uds)
qed

subsection \<open>MachXO2 globals: branch spans\<close>

lemma branch_span_missing:
  "get_child_optional spans (to_string g) = None \<Longrightarrow> branch_span spans g = Inl PtreeBadPath"
  by (simp add: branch_span_def get_child_def)

lemma parse_branch_spans_present:
  assumes "parse_branch_spans udc col_no cols = Inr r" and "i < length cols"
  shows "col_no + i < length udc
       \<and> list_all (\<lambda>g. get_child_optional (snd (cols ! i)) (to_string g) \<noteq> None) (udc ! (col_no + i))"
  using assms
proof (induction cols arbitrary: col_no i r)
  case Nil
  then show ?case by simp
next
  case (Cons spans rest)
  from Cons.prems(1) obtain sp more where inr: "col_no < length udc"
    and sp: "for_each (branch_span (snd spans)) (udc ! col_no) = Inr sp"
    and more: "parse_branch_spans udc (col_no + 1) rest = Inr more"
    by (auto simp: then_do_eq_Inr split: if_splits)
  show ?case
  proof (cases i)
    case 0
    have "list_all (\<lambda>g. get_child_optional (snd spans) (to_string g) \<noteq> None) (udc ! col_no)"
      unfolding list_all_iff
    proof
      fix g assume "g \<in> set (udc ! col_no)"
      show "get_child_optional (snd spans) (to_string g) \<noteq> None"
      proof
        assume "get_child_optional (snd spans) (to_string g) = None"
        then have "branch_span (snd spans) g = Inl PtreeBadPath"
          by (rule branch_span_missing)
        from for_each_Inl [of g "udc ! col_no" "branch_span (snd spans)", OF \<open>g \<in> set (udc ! col_no)\<close> this]
          sp show False
          by simp
      qed
    qed
    with 0 inr show ?thesis by simp
  next
    case (Suc j)
    with Cons.prems(2) have "j < length rest" by simp
    from Cons.IH [OF more this] Suc show ?thesis by simp
  qed
qed

lemma parse_branch_spans_append:
  "parse_branch_spans udc col_no (xs @ ys) =
     then_do (parse_branch_spans udc col_no xs) (\<lambda>a.
     then_do (parse_branch_spans udc (col_no + length xs) ys) (\<lambda>b. Inr (a @ b)))"
proof (induction xs arbitrary: col_no)
  case Nil
  show ?case by (cases "parse_branch_spans udc col_no ys") simp_all
next
  case (Cons x xs)
  show ?case
    by (cases "stoi (fst x)"; cases "for_each (branch_span (snd x)) (udc ! col_no)";
        cases "parse_branch_spans udc (Suc col_no) xs";
        cases "parse_branch_spans udc (Suc (col_no + length xs)) ys")
       (simp_all add: Cons)
qed

text \<open>
  \<^bold>\<open>C2\<close>, amended. A MachXO2 globals file in which some column of \<^verbatim>\<open>branch-spans\<close> has
  no entry under the key of a global that \<^verbatim>\<open>ud-conns\<close> declares for that column is never
  loaded. When this is the first defect of the file, the result is the
  \<^verbatim>\<open>ptree_bad_path\<close> of the failed lookup.
\<close>

theorem machxo2_missing_branch_span:
  assumes readable: "fs (globals_path db_root part) = Some glb"
    and uds: "get_child glb ''ud-conns'' = Inr uds"
    and udc: "parse_ud_conns 0 (children uds) = Inr udc"
    and bs: "get_child glb ''branch-spans'' = Inr bs"
  shows "(i < length (children bs) \<and> i < length udc \<and> g \<in> set (udc ! i)
            \<and> get_child_optional (snd (children bs ! i)) (to_string g) = None
          \<longrightarrow> (\<exists>e. get_global_info_machxo2 fs db_root part = Inl e))
       \<and> (get_child glb ''lr-conns'' = Inr lrs \<and> for_each parse_lr_conn (children lrs) = Inr lr
            \<and> children bs = before @ col # after
            \<and> parse_branch_spans udc 0 before = Inr done
            \<and> stoi (fst col) = Inr (int (length before)) \<and> length before < length udc
            \<and> udc ! length before = gs1 @ g' # gs2
            \<and> for_each (branch_span (snd col)) gs1 = Inr sp1
            \<and> get_child_optional (snd col) (to_string g') = None
          \<longrightarrow> get_global_info_machxo2 fs db_root part = Inl PtreeBadPath)"
proof (intro conjI impI)
  assume a: "i < length (children bs) \<and> i < length udc \<and> g \<in> set (udc ! i)
            \<and> get_child_optional (snd (children bs ! i)) (to_string g) = None"
  show "\<exists>e. get_global_info_machxo2 fs db_root part = Inl e"
  proof (cases "get_global_info_machxo2 fs db_root part")
    case (Inl e)
    then show ?thesis by simp
  next
    case (Inr info)
    then obtain spans where "parse_branch_spans udc 0 (children bs) = Inr spans"
      by (auto simp: get_global_info_machxo2_def read_json_def readable uds udc bs then_do_eq_Inr)
    from parse_branch_spans_present [OF this, of i] a
    have "list_all (\<lambda>g. get_child_optional (snd (children bs ! i)) (to_string g) \<noteq> None) (udc ! i)"
      by simp
    with a show ?thesis
      by (auto simp: list_all_iff)
  qed
next
  assume a: "get_child glb ''lr-conns'' = Inr lrs \<and> for_each parse_lr_conn (children lrs) = Inr lr
            \<and> children bs = before @ col # after
            \<and> parse_branch_spans udc 0 before = Inr done
            \<and> stoi (fst col) = Inr (int (length before)) \<and> length before < length udc
            \<and> udc ! length before = gs1 @ g' # gs2
            \<and> for_each (branch_span (snd col)) gs1 = Inr sp1
            \<and> get_child_optional (snd col) (to_string g') = None"
  then have "branch_span (snd col) g' = Inl PtreeBadPath"
    by (simp add: branch_span_missing)
  with a have "for_each (branch_span (snd col)) (udc ! length before) = Inl PtreeBadPath"
    by (simp add: for_each_append)
  with a have "parse_branch_spans udc 0 (children bs) = Inl PtreeBadPath"
    by (simp add: parse_branch_spans_append)
  with a show "get_global_info_machxo2 fs db_root part = Inl PtreeBadPath"
    by (simp add: get_global_info_machxo2_def read_json_def readable uds udc bs)
qed

subsection \<open>MachXO2 globals: the example files\<close>

lemma to_string_digits:
  "to_string 4 = ''4''" "to_string 5 = ''5''" "to_string 6 = ''6''"
  "to_string 0 = ''0''" "to_string 1 = ''1''"
  by code_simp+

lemmas machxo2_evals = machxo2_globals_def json_array_def leaf_def
  get_child_def get_child_optional_plain plain_key_def get_int_def get_value_int_def
  parse_lr_conn_def read_pair_def int_array_def branch_span_def parse_missing_dccs_def
  int_defs stoi_def

lemma lr_example:
  "get_child (machxo2_globals u s) ''lr-conns'' = Inr (Node [] [(''lr0'', Node [] [(''row'', leaf ''3''),
                 (''row-span'', json_array [''0'', ''9''])])])"
  "parse_lr_conn (''lr0'', Node [] [(''row'', leaf ''3''), (''row-span'', json_array [''0'', ''9''])])
     = Inr \<lparr>lrc_name = ''lr0'', lrc_row = 3, lrc_row_span = (0, 9)\<rparr>"
  "get_child (machxo2_globals u s) ''ud-conns'' = Inr (Node [] u)"
  "get_child (machxo2_globals u s) ''branch-spans'' = Inr (Node [] s)"
  "get_child (machxo2_globals u s) ''missing-dccs'' = Inr (Node [] [(''4'', json_array [''6'', ''7''])])"
  "parse_missing_dccs (''4'', json_array [''6'', ''7'']) = Inr \<lparr>md_row = 4, md_missing = [6, 7]\<rparr>"
  by (simp_all add: machxo2_evals)

lemmas array_evals = json_array_def leaf_def get_child_def get_child_optional_plain plain_key_def
  get_int_def get_value_int_def read_pair_def int_array_def branch_span_def int_defs stoi_def

lemma surplus_parts:
  "parse_ud_conns 0 surplus_uds = Inr [[5]]"
  "parse_branch_spans [[5]] 0 surplus_spans = Inr [[(1, 2)]]"
  by (simp_all add: surplus_uds_def surplus_spans_def to_string_digits array_evals)

lemma out_of_order_parts:
  "parse_ud_conns 0 [(''0'', json_array [''0'', ''1''])] = Inr [[0, 1]]"
  "stoi ''2'' = Inr 2"
  "\<not> columns_in_order out_of_order_uds"
  by (simp_all add: out_of_order_uds_def columns_in_order_def array_evals upt_rec)

lemma missing_parts:
  "parse_ud_conns 0 three_uds = Inr [[0], [1], [4, 5, 6]]"
  "parse_branch_spans [[0], [1], [4, 5, 6]] 0 (take 2 two_spans) = Inr [[(0, 3)], [(0, 3)]]"
  "stoi ''2'' = Inr 2"
  "for_each (branch_span (snd (two_spans ! 2))) [4, 5] = Inr [(1, 2), (3, 4)]"
  "get_child_optional (snd (two_spans ! 2)) (to_string 6) = None"
  by (simp_all add: three_uds_def two_spans_def to_string_digits array_evals)

lemma surplus_result:
  "get_global_info_machxo2
     (single_file (globals_path ''/db'' example_part) (machxo2_globals surplus_uds surplus_spans))
     ''/db'' example_part
   = Inr \<lparr>lr_conns = [\<lparr>lrc_name = ''lr0'', lrc_row = 3, lrc_row_span = (0, 9)\<rparr>],
          ud_conns = [[5]], branch_spans = [[(1, 2)]],
          missing_dccs = [\<lparr>md_row = 4, md_missing = [6, 7]\<rparr>]\<rparr>"
  by (simp add: get_global_info_machxo2_def read_json_def single_file_def lr_example surplus_parts)

text \<open>The file with the columns in the order 0, 2, 1.\<close>

theorem machxo2_columns_out_of_order_witness:
  "\<not> columns_in_order out_of_order_uds
   \<and> out_of_order_uds = [(''0'', json_array [''0'', ''1''])] @ (''2'', json_array [''2''])
        # [(''1'', json_array [''3''])]
   \<and> parse_ud_conns 0 [(''0'', json_array [''0'', ''1''])] = Inr [[0, 1]]
   \<and> stoi ''2'' = Inr 2
   \<and> get_global_info_machxo2
       (single_file (globals_path ''/db'' example_part) (machxo2_globals out_of_order_uds []))
       ''/db'' example_part
     = Inl AssertionFailed"
proof -
  let ?glb = "machxo2_globals out_of_order_uds []"
  let ?fs = "single_file (globals_path ''/db'' example_part) ?glb"
  let ?lrs = "Node [] [(''lr0'', Node [] [(''row'', leaf ''3''),
                 (''row-span'', json_array [''0'', ''9''])])]"
  have r: "?fs (globals_path ''/db'' example_part) = Some ?glb"
    by (simp add: single_file_def)
  have u: "get_child ?glb ''ud-conns'' = Inr (Node [] out_of_order_uds)"
    and l: "get_child ?glb ''lr-conns'' = Inr ?lrs"
    by (simp_all add: lr_example)
  have split: "out_of_order_uds = [(''0'', json_array [''0'', ''1''])] @ (''2'', json_array [''2''])
        # [(''1'', json_array [''3''])]"
    by (simp add: out_of_order_uds_def)
  have lr: "for_each parse_lr_conn (children ?lrs)
      = Inr [\<lparr>lrc_name = ''lr0'', lrc_row = 3, lrc_row_span = (0, 9)\<rparr>]"
    by (simp add: lr_example)
  have failure: "get_global_info_machxo2 ?fs ''/db'' example_part = Inl AssertionFailed"
  proof (rule machxo2_columns_out_of_order [where fs = ?fs and db_root = "''/db''"
          and part = example_part and glb = ?glb, OF r u,
        where before = "[(''0'', json_array [''0'', ''1''])]" and col = "(''2'', json_array [''2''])"
          and after = "[(''1'', json_array [''3''])]" and udc = "[[0, 1]]" and n = 2
          and lrs = ?lrs
          and lr = "[\<lparr>lrc_name = ''lr0'', lrc_row = 3, lrc_row_span = (0, 9)\<rparr>]",
        THEN conjunct2, THEN mp], intro conjI)
    show "children (Node [] out_of_order_uds) = [(''0'', json_array [''0'', ''1''])]
        @ (''2'', json_array [''2'']) # [(''1'', json_array [''3''])]"
      using split by simp
    show "stoi (fst (''2'', json_array [''2''])) = Inr 2"
      by (simp add: out_of_order_parts)
    show "2 \<noteq> int (length [(''0'', json_array [''0'', ''1''])])"
      by simp
  qed (fact l lr out_of_order_parts)+
  from out_of_order_parts(3) split out_of_order_parts(1,2) failure show ?thesis
    by (intro conjI)
qed

text \<open>
  \<^bold>\<open>C2\<close>, as stated, fails: a column that declares one global (5) and has two branch
  spans (for 5 and for 6) is loaded, and the span that nothing declares is dropped. The
  source compares no counts; it looks up one span per declared global.
\<close>

theorem machxo2_surplus_span_accepted:
  "parse_ud_conns 0 surplus_uds = Inr [[5]]
   \<and> length (children (snd (surplus_spans ! 0))) = 2
   \<and> get_global_info_machxo2
       (single_file (globals_path ''/db'' example_part) (machxo2_globals surplus_uds surplus_spans))
       ''/db'' example_part
     = Inr \<lparr>lr_conns = [\<lparr>lrc_name = ''lr0'', lrc_row = 3, lrc_row_span = (0, 9)\<rparr>],
            ud_conns = [[5]], branch_spans = [[(1, 2)]],
            missing_dccs = [\<lparr>md_row = 4, md_missing = [6, 7]\<rparr>]\<rparr>"
  by (simp add: surplus_result surplus_parts) (simp add: surplus_spans_def)

text \<open>Column 2 declares the globals 4, 5 and 6 and has spans for 4 and 5 only.\<close>

theorem machxo2_missing_branch_span_witness:
  "parse_ud_conns 0 three_uds = Inr [[0], [1], [4, 5, 6]]
   \<and> two_spans = take 2 two_spans @ (two_spans ! 2) # []
   \<and> parse_branch_spans [[0], [1], [4, 5, 6]] 0 (take 2 two_spans) = Inr [[(0, 3)], [(0, 3)]]
   \<and> stoi (fst (two_spans ! 2)) = Inr 2
   \<and> for_each (branch_span (snd (two_spans ! 2))) [4, 5] = Inr [(1, 2), (3, 4)]
   \<and> get_child_optional (snd (two_spans ! 2)) (to_string 6) = None
   \<and> get_global_info_machxo2
       (single_file (globals_path ''/db'' example_part) (machxo2_globals three_uds two_spans))
       ''/db'' example_part
     = Inl PtreeBadPath"
proof -
  let ?glb = "machxo2_globals three_uds two_spans"
  let ?fs = "single_file (globals_path ''/db'' example_part) ?glb"
  let ?lrs = "Node [] [(''lr0'', Node [] [(''row'', leaf ''3''),
                 (''row-span'', json_array [''0'', ''9''])])]"
  have r: "?fs (globals_path ''/db'' example_part) = Some ?glb"
    by (simp add: single_file_def)
  have u: "get_child ?glb ''ud-conns'' = Inr (Node [] three_uds)"
    and b: "get_child ?glb ''branch-spans'' = Inr (Node [] two_spans)"
    and l: "get_child ?glb ''lr-conns'' = Inr ?lrs"
    by (simp_all add: lr_example)
  have p: "parse_ud_conns 0 (children (Node [] three_uds)) = Inr [[0], [1], [4, 5, 6]]"
    by (simp add: missing_parts)
  have split: "two_spans = take 2 two_spans @ (two_spans ! 2) # []"
    and key: "stoi (fst (two_spans ! 2)) = Inr 2"
    by (simp_all add: two_spans_def missing_parts)
  have lr: "for_each parse_lr_conn (children ?lrs)
      = Inr [\<lparr>lrc_name = ''lr0'', lrc_row = 3, lrc_row_span = (0, 9)\<rparr>]"
    by (simp add: lr_example)
  have failure: "get_global_info_machxo2 ?fs ''/db'' example_part = Inl PtreeBadPath"
  proof (rule machxo2_missing_branch_span [where fs = ?fs and db_root = "''/db''"
          and part = example_part and glb = ?glb, OF r u p b,
        where before = "take 2 two_spans" and col = "two_spans ! 2"
          and after = "[]" and ?done = "[[(0, 3)], [(0, 3)]]" and ?gs1.0 = "[4, 5]" and g' = 6
          and ?gs2.0 = "[]" and ?sp1.0 = "[(1, 2), (3, 4)]" and lrs = ?lrs
          and lr = "[\<lparr>lrc_name = ''lr0'', lrc_row = 3, lrc_row_span = (0, 9)\<rparr>]",
        THEN conjunct2, THEN mp], intro conjI)
    show "children (Node [] two_spans) = take 2 two_spans @ two_spans ! 2 # []"
      using split by simp
    show "stoi (fst (two_spans ! 2)) = Inr (int (length (take 2 two_spans)))"
      using key by (simp add: two_spans_def)
    show "length (take 2 two_spans) < length [[0], [1], [4, 5, 6::int]]"
      by (simp add: two_spans_def)
    show "[[0], [1], [4, 5, 6]] ! length (take 2 two_spans) = [4, 5] @ (6::int) # []"
      by (simp add: two_spans_def)
  qed (fact l lr missing_parts)+
  from missing_parts(1,2) split key missing_parts(4,5) failure show ?thesis
    by (intro conjI)
qed

subsection \<open>The cache of tile bit databases\<close>

lemma get_tile_bitdata_hit:
  "bitdb_store st tile = Some h \<Longrightarrow> get_tile_bitdata c db_root st tile = (Inr h, st)"
  by (simp add: get_tile_bitdata_def)

lemma get_tile_bitdata_keeps:
  assumes "bitdb_store st tile = Some h"
  shows "bitdb_store (snd (get_tile_bitdata c db_root st k)) tile = Some h"
proof (cases "bitdb_store st k")
  case None
  with assms have "k \<noteq> tile" by auto
  with None assms show ?thesis
    by (simp add: get_tile_bitdata_def split: sum.splits)
next
  case (Some a)
  with assms show ?thesis
    by (simp add: get_tile_bitdata_def)
qed

lemma run_bitdata_keeps:
  "bitdb_store st tile = Some h \<Longrightarrow> bitdb_store (run_bitdata db_root st calls) tile = Some h"
  by (induction calls arbitrary: st) (simp_all add: get_tile_bitdata_keeps)

lemma get_tile_bitdata_stores:
  assumes "get_tile_bitdata c db_root st tile = (Inr h, st1)"
  shows "bitdb_store st1 tile = Some h"
  using assms
  by (cases "bitdb_store st tile")
     (auto simp: get_tile_bitdata_def split: if_splits sum.splits)

lemma get_tile_bitdata_first:
  assumes "bitdb_store st tile = None" and "get_tile_bitdata c db_root st tile = (Inr h, st1)"
  shows "h = length (heap st) \<and> (\<exists>db. c (bitdb_path db_root tile) = Inr db \<and> heap st1 = heap st @ [db])"
  using assms by (auto simp: get_tile_bitdata_def split: if_splits sum.splits)

lemma get_tile_bitdata_grows:
  assumes "length (heap (snd (get_tile_bitdata c db_root st tile))) \<noteq> length (heap st)"
  shows "\<exists>h. bitdb_store (snd (get_tile_bitdata c db_root st tile)) tile = Some h"
  using assms
  by (cases "bitdb_store st tile")
     (auto simp: get_tile_bitdata_def split: if_splits sum.splits)

lemma constructions_hit:
  "bitdb_store st tile = Some h \<Longrightarrow> constructions tile db_root st calls = 0"
proof (induction calls arbitrary: st)
  case Nil
  show ?case by simp
next
  case (Cons c cs)
  have keep: "bitdb_store (snd (get_tile_bitdata (fst c) db_root st (snd c))) tile = Some h"
    using Cons.prems by (rule get_tile_bitdata_keeps)
  have "snd c = tile \<Longrightarrow> snd (get_tile_bitdata (fst c) db_root st (snd c)) = st"
    using Cons.prems by (simp add: get_tile_bitdata_hit)
  with Cons.IH [OF keep] show ?case
    by (auto simp: Let_def)
qed

lemma constructions_le_1: "constructions tile db_root st calls \<le> 1"
proof (induction calls arbitrary: st)
  case Nil
  show ?case by simp
next
  case (Cons c cs)
  let ?st' = "snd (get_tile_bitdata (fst c) db_root st (snd c))"
  show ?case
  proof (cases "snd c = tile \<and> length (heap ?st') \<noteq> length (heap st)")
    case True
    then obtain h where "bitdb_store ?st' tile = Some h"
      using get_tile_bitdata_grows [of "fst c" db_root st tile] by auto
    then have "constructions tile db_root ?st' cs = 0"
      by (rule constructions_hit)
    with True show ?thesis by (simp add: Let_def)
  next
    case False
    then have "constructions tile db_root st (c # cs) = constructions tile db_root ?st' cs"
      by (auto simp: Let_def)
    with Cons.IH [of ?st'] show ?thesis by simp
  qed
qed

text \<open>
  \<^bold>\<open>C3.\<close> After a call of \<^verbatim>\<open>get_tile_bitdata\<close> for a key has returned a handle, every
  later call for that key, after any other calls and whatever the constructor would do
  then, returns the same handle and changes nothing: it builds no object. The first
  successful call for a key that is not in the store builds the object, at the next free
  address, and stores its handle. In any sequence of calls, from any state, at most one
  call for a given key builds an object.
\<close>

theorem get_tile_bitdata_shared_handle:
  "(get_tile_bitdata c db_root st tile = (Inr h, st1)
      \<longrightarrow> get_tile_bitdata c' db_root (run_bitdata db_root st1 calls) tile
            = (Inr h, run_bitdata db_root st1 calls))
   \<and> (bitdb_store st tile = None \<and> get_tile_bitdata c db_root st tile = (Inr h, st1)
      \<longrightarrow> h = length (heap st)
          \<and> (\<exists>db. c (bitdb_path db_root tile) = Inr db \<and> heap st1 = heap st @ [db])
          \<and> bitdb_store st1 tile = Some h)
   \<and> constructions tile db_root st calls' \<le> 1"
proof (intro conjI impI)
  assume "get_tile_bitdata c db_root st tile = (Inr h, st1)"
  then have "bitdb_store st1 tile = Some h"
    by (rule get_tile_bitdata_stores)
  then have "bitdb_store (run_bitdata db_root st1 calls) tile = Some h"
    by (rule run_bitdata_keeps)
  then show "get_tile_bitdata c' db_root (run_bitdata db_root st1 calls) tile
            = (Inr h, run_bitdata db_root st1 calls)"
    by (rule get_tile_bitdata_hit)
next
  assume a: "bitdb_store st tile = None \<and> get_tile_bitdata c db_root st tile = (Inr h, st1)"
  then show "h = length (heap st)"
    and "\<exists>db. c (bitdb_path db_root tile) = Inr db \<and> heap st1 = heap st @ [db]"
    and "bitdb_store st1 tile = Some h"
    using get_tile_bitdata_first [of st tile c db_root h st1]
      get_tile_bitdata_stores [of c db_root st tile h st1] by simp_all
next
  show "constructions tile db_root st calls' \<le> 1"
    by (rule constructions_le_1)
qed

text \<open>
  \<^bold>\<open>C10.\<close> When the constructor of \<^verbatim>\<open>TileBitDatabase\<close> raises inside
  \<^verbatim>\<open>get_tile_bitdata\<close>, the error is the result and the state is the state before the
  call: the store has no entry for the key. The next call for the key runs the
  constructor again, and its result is what the constructor gives then.
\<close>

theorem get_tile_bitdata_failed_load:
  assumes "bitdb_store st tile = None" and "db_root \<noteq> []"
    and "construct (bitdb_path db_root tile) = Inl e"
  shows "get_tile_bitdata construct db_root st tile = (Inl e, st)
       \<and> bitdb_store (snd (get_tile_bitdata construct db_root st tile)) tile = None
       \<and> get_tile_bitdata construct' db_root (snd (get_tile_bitdata construct db_root st tile)) tile =
           (case construct' (bitdb_path db_root tile) of
              Inl e' \<Rightarrow> (Inl e', st)
            | Inr db \<Rightarrow>
                (Inr (length (heap st)),
                 st\<lparr>heap := heap st @ [db],
                    bitdb_store := (bitdb_store st)(tile \<mapsto> length (heap st))\<rparr>))"
  using assms by (simp add: get_tile_bitdata_def)

lemma plc2_first: "get_tile_bitdata load_path ''/db'' empty_bitdb plc2 = (Inr 0, plc2_loaded)"
  by (simp add: get_tile_bitdata_def empty_bitdb_def load_path_def plc2_loaded_def)

text \<open>From the empty store: the first call for \<^verbatim>\<open>PLC2\<close> builds object 0; after a call
  for another tile and with a constructor that now fails, the call for \<^verbatim>\<open>PLC2\<close> still
  returns handle 0.\<close>

theorem get_tile_bitdata_shared_handle_witness:
  "bitdb_store empty_bitdb plc2 = None
   \<and> get_tile_bitdata load_path ''/db'' empty_bitdb plc2 = (Inr 0, plc2_loaded)
   \<and> get_tile_bitdata load_fails ''/db''
        (run_bitdata ''/db'' plc2_loaded [(load_path, mib_ebr), (load_fails, plc2)]) plc2
      = (Inr 0, run_bitdata ''/db'' plc2_loaded [(load_path, mib_ebr), (load_fails, plc2)])
   \<and> heap plc2_loaded = heap empty_bitdb @ [bitdb_path ''/db'' plc2]
   \<and> constructions plc2 ''/db'' empty_bitdb
        [(load_fails, plc2), (load_path, plc2), (load_path, mib_ebr), (load_path, plc2)] \<le> 1"
proof -
  have none: "bitdb_store empty_bitdb plc2 = None"
    by (simp add: empty_bitdb_def)
  have hp: "heap plc2_loaded = heap empty_bitdb @ [bitdb_path ''/db'' plc2]"
    by (simp add: plc2_loaded_def empty_bitdb_def)
  from get_tile_bitdata_shared_handle [of load_path "''/db''" empty_bitdb plc2 0 plc2_loaded
      load_fails "[(load_path, mib_ebr), (load_fails, plc2)]"
      "[(load_fails, plc2), (load_path, plc2), (load_path, mib_ebr), (load_path, plc2)]"]
    none plc2_first hp
  show ?thesis by blast
qed

text \<open>A first call that finds no file, then a call that loads the database.\<close>

theorem get_tile_bitdata_failed_load_witness:
  "bitdb_store empty_bitdb plc2 = None \<and> ''/db'' \<noteq> []
   \<and> load_fails (bitdb_path ''/db'' plc2) = Inl RuntimeError
   \<and> get_tile_bitdata load_fails ''/db'' empty_bitdb plc2 = (Inl RuntimeError, empty_bitdb)
   \<and> get_tile_bitdata load_path ''/db''
        (snd (get_tile_bitdata load_fails ''/db'' empty_bitdb plc2)) plc2
      = (Inr 0, plc2_loaded)"
proof -
  have none: "bitdb_store empty_bitdb plc2 = None"
    by (simp add: empty_bitdb_def)
  have root: "''/db'' \<noteq> []"
    by simp
  have fails: "load_fails (bitdb_path ''/db'' plc2) = Inl RuntimeError"
    by (simp add: load_fails_def)
  have again: "(case load_path (bitdb_path ''/db'' plc2) of
              Inl e' \<Rightarrow> (Inl e', empty_bitdb)
            | Inr db \<Rightarrow>
                (Inr (length (heap empty_bitdb)),
                 empty_bitdb\<lparr>heap := heap empty_bitdb @ [db],
                    bitdb_store := (bitdb_store empty_bitdb)(plc2 \<mapsto> length (heap empty_bitdb))\<rparr>))
      = (Inr 0, plc2_loaded)"
    by (simp add: load_path_def empty_bitdb_def plc2_loaded_def)
  note inst = get_tile_bitdata_failed_load [where construct = load_fails
      and construct' = load_path, OF none root fails]
  from inst have unchanged:
    "get_tile_bitdata load_fails ''/db'' empty_bitdb plc2 = (Inl RuntimeError, empty_bitdb)"
    by (rule conjunct1)
  from inst [THEN conjunct2, THEN conjunct2] have retried: "get_tile_bitdata load_path ''/db''
        (snd (get_tile_bitdata load_fails ''/db'' empty_bitdb plc2)) plc2
      = (Inr 0, plc2_loaded)"
    by (simp only: again)
  from none root fails unchanged retried show ?thesis
    by (intro conjI)
qed

subsection \<open>The cache of tile grids\<close>

lemma get_device_tilegrid_keeps:
  assumes "cache d = Some tg"
  shows "snd (get_device_tilegrid fs cat db_root cache part) d = Some tg"
proof (cases "cache (device part)")
  case None
  with assms have "device part \<noteq> d" by auto
  with None assms show ?thesis
    by (simp add: get_device_tilegrid_def split: sum.splits)
next
  case (Some a)
  with assms show ?thesis
    by (simp add: get_device_tilegrid_def split: sum.splits)
qed

lemma run_tilegrid_keeps:
  "cache d = Some tg \<Longrightarrow> run_tilegrid cat db_root cache calls d = Some tg"
  by (induction calls arbitrary: cache) (simp_all add: get_device_tilegrid_keeps)

lemma get_device_tilegrid_hit:
  assumes "cache (device part) = Some tg" and "db_root \<noteq> []"
    and "get_chip_info cat part = Inr info"
  shows "get_device_tilegrid fs cat db_root cache part
           = (for_each (parse_tile part info) (children tg), cache)"
  using assms by (simp add: get_device_tilegrid_def)

lemma get_device_tilegrid_Inr:
  assumes "get_device_tilegrid fs cat db_root cache part = (Inr tiles, cache1)"
  shows "\<exists>tg info. cache1 (device part) = Some tg \<and> db_root \<noteq> []
           \<and> get_chip_info cat part = Inr info
           \<and> for_each (parse_tile part info) (children tg) = Inr tiles"
  using assms
  by (cases "cache (device part)")
     (auto simp: get_device_tilegrid_def read_json_def split: if_splits sum.splits option.splits)

lemma parse_tile_locator:
  "parse_tile part info tile = Inr ti \<Longrightarrow> ti_family ti = family part \<and> ti_device ti = device part"
  by (auto simp: parse_tile_def then_do_eq_Inr)

lemma parse_tiles_locator:
  "for_each (parse_tile part info) kids = Inr tiles \<Longrightarrow>
     list_all (\<lambda>ti. ti_family ti = family part \<and> ti_device ti = device part) tiles"
proof (induction kids arbitrary: tiles)
  case Nil
  then show ?case by simp
next
  case (Cons tile kids)
  from Cons.prems obtain ti rest where "parse_tile part info tile = Inr ti"
    and "for_each (parse_tile part info) kids = Inr rest" and "tiles = ti # rest"
    by (auto simp: then_do_eq_Inr)
  with Cons.IH [of rest] parse_tile_locator [of part info tile ti] show ?case
    by simp
qed

text \<open>
  \<^bold>\<open>C7.\<close> After a call of \<^verbatim>\<open>get_device_tilegrid\<close> for a locator has returned a tile
  list, every later call for that locator (the catalog unchanged, after any other calls,
  whatever the files are then) returns an equal list and leaves the cache as it is; and
  every tile of the list carries the family and the device of the locator of the call.
  The result is a list value built anew by each call: the cache holds the parsed tree,
  never the \<^verbatim>\<open>TileInfo\<close> values.
\<close>

theorem get_device_tilegrid_repeatable:
  assumes "get_device_tilegrid fs cat db_root cache part = (Inr tiles, cache1)"
  shows "get_device_tilegrid fs' cat db_root (run_tilegrid cat db_root cache1 calls) part
           = (Inr tiles, run_tilegrid cat db_root cache1 calls)
       \<and> list_all (\<lambda>ti. ti_family ti = family part \<and> ti_device ti = device part) tiles"
proof -
  from get_device_tilegrid_Inr [OF assms]
  obtain tg info where tg: "cache1 (device part) = Some tg" and root: "db_root \<noteq> []"
    and info: "get_chip_info cat part = Inr info"
    and tiles: "for_each (parse_tile part info) (children tg) = Inr tiles"
    by blast
  from tg have "run_tilegrid cat db_root cache1 calls (device part) = Some tg"
    by (rule run_tilegrid_keeps)
  from get_device_tilegrid_hit [where cache = "run_tilegrid cat db_root cache1 calls"
      and fs = fs', OF this root info] tiles parse_tiles_locator [OF tiles]
  show ?thesis by simp
qed

lemma two_family_chips:
  "get_chip_info two_family_catalog \<lparr>family = ''F1'', device = ''D''\<rparr> = Inr (chip_d ''F1'')"
  "get_chip_info two_family_catalog \<lparr>family = ''F2'', device = ''D''\<rparr> = Inr (chip_d ''F2'')"
proof -
  let ?fam = "Node [] [(''devices'', Node [] [(''D'', roundtrip_device)])]"
  let ?fams = "Node [] [(''F1'', ?fam), (''F2'', ?fam)]"
  have idc: "parse_uint32 ''0x10'' = 16"
    by (simp add: num_defs)
  have steps:
    "get_child two_family_catalog ''families'' = Inr ?fams"
    "get_child ?fams ''F1'' = Inr ?fam"
    "get_child ?fams ''F2'' = Inr ?fam"
    "get_child ?fam ''devices'' = Inr (Node [] [(''D'', roundtrip_device)])"
    "get_child (Node [] [(''D'', roundtrip_device)]) ''D'' = Inr roundtrip_device"
    by (simp_all add: two_family_catalog_def get_child_def get_child_optional_plain plain_key_def)
  show "get_chip_info two_family_catalog \<lparr>family = ''F1'', device = ''D''\<rparr> = Inr (chip_d ''F1'')"
    and "get_chip_info two_family_catalog \<lparr>family = ''F2'', device = ''D''\<rparr> = Inr (chip_d ''F2'')"
    by (simp_all add: get_chip_info_def steps roundtrip_fields idc chip_d_def)
qed

lemma parse_tile_entry:
  "parse_tile part (chip_d fam) (tile_name, tile_entry ty)
     = Inr ((tile_info (family part) tile_name ty)\<lparr>ti_device := device part\<rparr>)"
  by (simp add: parse_tile_def parse_site_def tile_entry_def tile_info_def chip_d_def leaf_def
      get_int_def get_string_def get_value_int_def get_child_def get_child_optional_plain
      plain_key_def int_defs size_t_of_int_def)

lemma paths:
  "tilegrid_path ''/db'' \<lparr>family = ''F1'', device = ''D''\<rparr> = ''/db/F1/D/tilegrid.json''"
  "tilegrid_path ''/db'' \<lparr>family = ''F2'', device = ''D''\<rparr> = ''/db/F2/D/tilegrid.json''"
  by (simp_all add: tilegrid_path_def)

text \<open>
  \<^bold>\<open>C1.\<close> The cache of \<^verbatim>\<open>get_device_tilegrid\<close> is searched and filled under
  \<^verbatim>\<open>part.device\<close> alone, while the file it caches is
  \<^verbatim>\<open>db_root/family/device/tilegrid.json\<close>. With a device \<^verbatim>\<open>D\<close> in the families \<^verbatim>\<open>F1\<close>
  and \<^verbatim>\<open>F2\<close>: after the call for \<^verbatim>\<open>F1/D\<close>, the call for \<^verbatim>\<open>F2/D\<close> returns the tiles of
  the file of \<^verbatim>\<open>F1\<close>, marked with the family \<^verbatim>\<open>F2\<close>; from an empty cache the same call
  returns the tiles of the file of \<^verbatim>\<open>F2\<close>.
\<close>

theorem tilegrid_cache_ignores_family:
  "get_device_tilegrid two_grids two_family_catalog ''/db'' (\<lambda>d. None)
       \<lparr>family = ''F1'', device = ''D''\<rparr>
     = (Inr [tile_info ''F1'' ''T1'' ''PLC2''], [''D'' \<mapsto> grid_f1])
   \<and> get_device_tilegrid two_grids two_family_catalog ''/db'' [''D'' \<mapsto> grid_f1]
       \<lparr>family = ''F2'', device = ''D''\<rparr>
     = (Inr [tile_info ''F2'' ''T1'' ''PLC2''], [''D'' \<mapsto> grid_f1])
   \<and> get_device_tilegrid two_grids two_family_catalog ''/db'' (\<lambda>d. None)
       \<lparr>family = ''F2'', device = ''D''\<rparr>
     = (Inr [tile_info ''F2'' ''T2'' ''MIB''], [''D'' \<mapsto> grid_f2])"
  by (simp add: get_device_tilegrid_def two_family_chips paths read_json_def two_grids_def
      grid_f1_def grid_f2_def parse_tile_entry) (simp add: tile_info_def)

text \<open>The grid of \<^verbatim>\<open>F1/D\<close> is loaded, a call for \<^verbatim>\<open>F2/D\<close> follows, the files vanish, and
  the call for \<^verbatim>\<open>F1/D\<close> returns the same tiles.\<close>

theorem get_device_tilegrid_repeatable_witness:
  "get_device_tilegrid two_grids two_family_catalog ''/db'' (\<lambda>d. None)
       \<lparr>family = ''F1'', device = ''D''\<rparr>
     = (Inr [tile_info ''F1'' ''T1'' ''PLC2''], [''D'' \<mapsto> grid_f1])
   \<and> get_device_tilegrid no_files two_family_catalog ''/db''
       (run_tilegrid two_family_catalog ''/db'' [''D'' \<mapsto> grid_f1]
          [(two_grids, \<lparr>family = ''F2'', device = ''D''\<rparr>)])
       \<lparr>family = ''F1'', device = ''D''\<rparr>
     = (Inr [tile_info ''F1'' ''T1'' ''PLC2''],
        run_tilegrid two_family_catalog ''/db'' [''D'' \<mapsto> grid_f1]
          [(two_grids, \<lparr>family = ''F2'', device = ''D''\<rparr>)])
   \<and> ti_family (tile_info ''F1'' ''T1'' ''PLC2'') = ''F1''
   \<and> ti_device (tile_info ''F1'' ''T1'' ''PLC2'') = ''D''"
proof -
  have first: "get_device_tilegrid two_grids two_family_catalog ''/db'' (\<lambda>d. None)
       \<lparr>family = ''F1'', device = ''D''\<rparr>
     = (Inr [tile_info ''F1'' ''T1'' ''PLC2''], [''D'' \<mapsto> grid_f1])"
    by (simp add: get_device_tilegrid_def two_family_chips paths read_json_def two_grids_def
        grid_f1_def parse_tile_entry) (simp add: tile_info_def)
  from get_device_tilegrid_repeatable [OF first, of no_files
      "[(two_grids, \<lparr>family = ''F2'', device = ''D''\<rparr>)]"] first
  show ?thesis by simp
qed

subsection \<open>ECP5 globals\<close>

lemma parse_tap_decodes:
  assumes "- (2 ^ 31) \<le> n" and "n < 2 ^ 31"
  shows "parse_tap (CHR ''C'' # to_string n, t) =
           then_do (get_int t ''lx0'') (\<lambda>lx0.
           then_do (get_int t ''lx1'') (\<lambda>lx1.
           then_do (get_int t ''rx0'') (\<lambda>rx0.
           then_do (get_int t ''rx1'') (\<lambda>rx1.
             Inr \<lparr>ts_tap_col = n, ts_lx0 = lx0, ts_lx1 = lx1, ts_rx0 = rx0, ts_rx1 = rx1\<rparr>))))"
  by (simp add: parse_tap_def stoi_to_string [OF assms])

lemma parse_spine_decodes:
  assumes "- (2 ^ 31) \<le> n" and "n < 2 ^ 31" and "length qq = 2"
  shows "parse_spine (qq @ to_string n, t) =
           then_do (get_int t ''y'') (\<lambda>y.
           then_do (get_int t ''x'') (\<lambda>x.
             Inr \<lparr>ss_quadrant = qq, ss_tap_col = n, ss_spine_row = y, ss_spine_col = x\<rparr>))"
  using assms(3) by (simp add: parse_spine_def stoi_to_string [OF assms(1,2)])

lemma ecp5_result_iff:
  assumes readable: "fs (globals_path db_root part) = Some glb"
    and qs: "get_child glb ''quadrants'' = Inr qs"
    and ts: "get_child glb ''taps'' = Inr ts"
    and ss: "get_child glb ''spines'' = Inr ss"
  shows "get_global_info_ecp5 fs db_root part = Inr g \<longleftrightarrow>
           list_all2 (\<lambda>quad rg. parse_quadrant quad = Inr rg) (children qs) (quadrants g)
         \<and> list_all2 (\<lambda>tap seg. parse_tap tap = Inr seg) (children ts) (tapsegs g)
         \<and> list_all2 (\<lambda>spine seg. parse_spine spine = Inr seg) (children ss) (spinesegs g)"
proof -
  have "get_global_info_ecp5 fs db_root part = Inr g \<longleftrightarrow>
      (\<exists>quads taps spines. for_each parse_quadrant (children qs) = Inr quads
         \<and> for_each parse_tap (children ts) = Inr taps
         \<and> for_each parse_spine (children ss) = Inr spines
         \<and> g = \<lparr>quadrants = quads, tapsegs = taps, spinesegs = spines\<rparr>)"
    by (auto simp: get_global_info_ecp5_def read_json_def readable qs ts ss then_do_eq_Inr)
  also have "\<dots> \<longleftrightarrow> for_each parse_quadrant (children qs) = Inr (quadrants g)
         \<and> for_each parse_tap (children ts) = Inr (tapsegs g)
         \<and> for_each parse_spine (children ss) = Inr (spinesegs g)"
    by (cases g) auto
  finally show ?thesis
    by (simp add: for_each_Inr_iff)
qed

text \<open>
  \<^bold>\<open>C8.\<close> \<^verbatim>\<open>get_global_info_ecp5\<close> returns a value exactly when every quadrant, tap
  and spine entry of the file is read without error, and then the three result lists
  hold the results of the entries, one for one, in the order of the file: nothing
  relates one entry to another. A tap entry with the key \<^verbatim>\<open>C<n>\<close> has \<^verbatim>\<open>tap_col = n\<close>;
  a spine entry with the key \<^verbatim>\<open><QQ><n>\<close> has the two characters \<^verbatim>\<open>QQ\<close> as its quadrant
  and \<^verbatim>\<open>tap_col = n\<close>. The number \<open>n\<close> is an \<^verbatim>\<open>int\<close>, written as \<^verbatim>\<open>std::to_string\<close>
  writes it.
\<close>

theorem ecp5_globals_in_file_order:
  assumes "fs (globals_path db_root part) = Some glb"
    and "get_child glb ''quadrants'' = Inr qs"
    and "get_child glb ''taps'' = Inr ts"
    and "get_child glb ''spines'' = Inr ss"
    and "- (2 ^ 31) \<le> n" and "n < 2 ^ 31" and "length qq = 2"
  shows "(get_global_info_ecp5 fs db_root part = Inr g \<longleftrightarrow>
           list_all2 (\<lambda>quad rg. parse_quadrant quad = Inr rg) (children qs) (quadrants g)
         \<and> list_all2 (\<lambda>tap seg. parse_tap tap = Inr seg) (children ts) (tapsegs g)
         \<and> list_all2 (\<lambda>spine seg. parse_spine spine = Inr seg) (children ss) (spinesegs g))
       \<and> parse_tap (CHR ''C'' # to_string n, t) =
           then_do (get_int t ''lx0'') (\<lambda>lx0.
           then_do (get_int t ''lx1'') (\<lambda>lx1.
           then_do (get_int t ''rx0'') (\<lambda>rx0.
           then_do (get_int t ''rx1'') (\<lambda>rx1.
             Inr \<lparr>ts_tap_col = n, ts_lx0 = lx0, ts_lx1 = lx1, ts_rx0 = rx0, ts_rx1 = rx1\<rparr>))))
       \<and> parse_spine (qq @ to_string n, t') =
           then_do (get_int t' ''y'') (\<lambda>y.
           then_do (get_int t' ''x'') (\<lambda>x.
             Inr \<lparr>ss_quadrant = qq, ss_tap_col = n, ss_spine_row = y, ss_spine_col = x\<rparr>))"
  using ecp5_result_iff [where fs = fs and db_root = db_root and part = part, OF assms(1-4)] parse_tap_decodes [OF assms(5,6)]
    parse_spine_decodes [OF assms(5-7)]
  by blast

lemma ecp5_fields:
  "get_int quadrant_tree ''x0'' = Inr 0" "get_int quadrant_tree ''x1'' = Inr 30"
  "get_int quadrant_tree ''y0'' = Inr 0" "get_int quadrant_tree ''y1'' = Inr 20"
  "get_int tap_tree ''lx0'' = Inr 1" "get_int tap_tree ''lx1'' = Inr 11"
  "get_int tap_tree ''rx0'' = Inr 12" "get_int tap_tree ''rx1'' = Inr 20"
  "get_int spine_tree ''y'' = Inr 5" "get_int spine_tree ''x'' = Inr 12"
  by (simp_all add: quadrant_tree_def tap_tree_def spine_tree_def leaf_def get_int_def
      get_value_int_def get_child_def get_child_optional_plain plain_key_def int_defs)

lemma ecp5_keys:
  "stoi ''12'' = Inr 12" "stoi ''3'' = Inr 3" "to_string 12 = ''12''"
  by (simp_all add: stoi_def strip_sign_def isspace_def isdigit_def digits_value_def digit_val_def)
     code_simp

lemma ecp5_sections:
  "get_child ecp5_globals ''quadrants'' = Inr (Node [] [(''UL'', quadrant_tree)])"
  "get_child ecp5_globals ''taps'' = Inr (Node [] [(''C12'', tap_tree), (''C3'', tap_tree)])"
  "get_child ecp5_globals ''spines'' = Inr (Node [] [(''UL12'', spine_tree)])"
  by (simp_all add: ecp5_globals_def get_child_def get_child_optional_plain plain_key_def)

text \<open>The example file, with the taps in the order C12, C3.\<close>

theorem ecp5_globals_in_file_order_witness:
  "single_file (globals_path ''/db'' ecp5_part) ecp5_globals (globals_path ''/db'' ecp5_part)
     = Some ecp5_globals
   \<and> get_child ecp5_globals ''taps'' = Inr (Node [] [(''C12'', tap_tree), (''C3'', tap_tree)])
   \<and> get_global_info_ecp5 (single_file (globals_path ''/db'' ecp5_part) ecp5_globals)
        ''/db'' ecp5_part = Inr ecp5_expected
   \<and> parse_tap (''C12'', tap_tree)
        = Inr \<lparr>ts_tap_col = 12, ts_lx0 = 1, ts_lx1 = 11, ts_rx0 = 12, ts_rx1 = 20\<rparr>
   \<and> parse_spine (''UL12'', spine_tree)
        = Inr \<lparr>ss_quadrant = ''UL'', ss_tap_col = 12, ss_spine_row = 5, ss_spine_col = 12\<rparr>"
proof -
  let ?fs = "single_file (globals_path ''/db'' ecp5_part) ecp5_globals"
  have r: "?fs (globals_path ''/db'' ecp5_part) = Some ecp5_globals"
    by (simp add: single_file_def)
  have range: "- (2 ^ 31) \<le> (12::int)" "(12::int) < 2 ^ 31" "length ''UL'' = 2"
    by simp_all
  note inst = ecp5_globals_in_file_order [where fs = ?fs and db_root = "''/db''"
      and part = ecp5_part and g = ecp5_expected and t = tap_tree and t' = spine_tree,
      OF r ecp5_sections range]
  have elems:
    "list_all2 (\<lambda>quad rg. parse_quadrant quad = Inr rg)
       (children (Node [] [(''UL'', quadrant_tree)])) (quadrants ecp5_expected)"
    "list_all2 (\<lambda>tap seg. parse_tap tap = Inr seg)
       (children (Node [] [(''C12'', tap_tree), (''C3'', tap_tree)])) (tapsegs ecp5_expected)"
    "list_all2 (\<lambda>spine seg. parse_spine spine = Inr seg)
       (children (Node [] [(''UL12'', spine_tree)])) (spinesegs ecp5_expected)"
    by (simp_all add: ecp5_expected_def parse_quadrant_def parse_tap_def parse_spine_def
        ecp5_fields ecp5_keys)
  from inst elems have loaded: "get_global_info_ecp5 ?fs ''/db'' ecp5_part = Inr ecp5_expected"
    by blast
  from inst have tap: "parse_tap (''C12'', tap_tree)
        = Inr \<lparr>ts_tap_col = 12, ts_lx0 = 1, ts_lx1 = 11, ts_rx0 = 12, ts_rx1 = 20\<rparr>"
    by (simp add: ecp5_keys ecp5_fields)
  from inst have spine: "parse_spine (''UL12'', spine_tree)
        = Inr \<lparr>ss_quadrant = ''UL'', ss_tap_col = 12, ss_spine_row = 5, ss_spine_col = 12\<rparr>"
    by (simp add: ecp5_keys ecp5_fields)
  from r ecp5_sections(2) loaded tap spine show ?thesis
    by (intro conjI)
qed

end
